theory Spec2Isabelle
  imports Main "HOL-Library.Sublist"
begin

section \<open>Python strings\<close>

text \<open>
  A Python \<open>str\<close> is a sequence of Unicode code points. Code points are natural
  numbers here, so that \<open>length\<close>, slicing and the regular expressions of the scripts
  count what Python counts. \<open>asc\<close> embeds an ASCII literal.
\<close>

type_synonym codepoint = nat
type_synonym pystr = "codepoint list"
type_synonym bytes = "nat list"

definition asc :: "string \<Rightarrow> pystr" where
  "asc s = map of_char s"

definition dash :: codepoint where
  "dash = 45"

text \<open>
  The part of the Unicode character database that \<open>str.lower\<close>, \<open>str.strip\<close> and
  \<open>str.isalnum\<close> consult outside ASCII is a parameter. \<open>lower_tbl s i\<close> is the full
  lowercase mapping of the non-ASCII code point at index \<open>i\<close> of \<open>s\<close> (a code point may
  lower to several, and capital sigma lowers by context, hence the string and the index).
  Inside ASCII the three functions are written out.
\<close>

record unicode =
  lower_tbl :: "pystr \<Rightarrow> nat \<Rightarrow> pystr"
  space_tbl :: "codepoint \<Rightarrow> bool"
  alnum_tbl :: "codepoint \<Rightarrow> bool"

definition ascii_lower :: "codepoint \<Rightarrow> codepoint" where
  "ascii_lower c = (if 65 \<le> c \<and> c \<le> 90 then c + 32 else c)"

definition py_lower :: "unicode \<Rightarrow> pystr \<Rightarrow> pystr" where
  "py_lower U s =
     concat (map (\<lambda>i. if s ! i < 128 then [ascii_lower (s ! i)] else lower_tbl U s i)
                 [0..<length s])"

definition py_isspace :: "unicode \<Rightarrow> codepoint \<Rightarrow> bool" where
  "py_isspace U c =
     (if c < 128 then (9 \<le> c \<and> c \<le> 13) \<or> (28 \<le> c \<and> c \<le> 32) else space_tbl U c)"

definition py_isalnum :: "unicode \<Rightarrow> codepoint \<Rightarrow> bool" where
  "py_isalnum U c =
     (if c < 128 then (48 \<le> c \<and> c \<le> 57) \<or> (65 \<le> c \<and> c \<le> 90) \<or> (97 \<le> c \<and> c \<le> 122)
      else alnum_tbl U c)"

text \<open>\<open>s.strip()\<close> and \<open>s.strip(chars)\<close>: drop the matching code points at both ends.\<close>

definition strip_where :: "(codepoint \<Rightarrow> bool) \<Rightarrow> pystr \<Rightarrow> pystr" where
  "strip_where P s = rev (dropWhile P (rev (dropWhile P s)))"

definition py_strip :: "unicode \<Rightarrow> pystr \<Rightarrow> pystr" where
  "py_strip U s = strip_where (py_isspace U) s"

definition py_strip_chars :: "pystr \<Rightarrow> pystr \<Rightarrow> pystr" where
  "py_strip_chars chars s = strip_where (\<lambda>c. c \<in> set chars) s"

text \<open>\<open>str(n)\<close> of an integer, and the format \<open>{n:02d}\<close>: sign-aware zero padding to width 2.\<close>

fun digits :: "nat \<Rightarrow> pystr" where
  "digits n = (if n < 10 then [48 + n] else digits (n div 10) @ [48 + n mod 10])"

definition str_int :: "int \<Rightarrow> pystr" where
  "str_int n = (if n < 0 then dash # digits (nat (- n)) else digits (nat n))"

definition fmt_02d :: "int \<Rightarrow> pystr" where
  "fmt_02d n =
     (if n < 0 then dash # replicate (1 - length (digits (nat (- n)))) 48 @ digits (nat (- n))
      else replicate (2 - length (digits (nat n))) 48 @ digits (nat n))"

text \<open>\<open>sep.join(parts)\<close>.\<close>

fun join :: "pystr \<Rightarrow> pystr list \<Rightarrow> pystr" where
  "join sep [] = []"
| "join sep [p] = p"
| "join sep (p # q # ps) = p @ sep @ join sep (q # ps)"

section \<open>slugify\<close>

text \<open>
  \<^verbatim>\<open>
  def slugify(text: str) -> str:
      text = text.lower().strip()
      text = re.sub(r"[^a-z0-9]+", "-", text)
      text = re.sub(r"-{2,}", "-", text).strip("-")
      return text or "logo"
  \<close>
  \<open>re.sub\<close> replaces the leftmost, non-overlapping, greedy matches: every maximal run of
  code points outside \<open>[a-z0-9]\<close> becomes one dash, and every maximal run of two or more
  dashes becomes one dash.
\<close>

definition is_az09 :: "codepoint \<Rightarrow> bool" where
  "is_az09 c = ((97 \<le> c \<and> c \<le> 122) \<or> (48 \<le> c \<and> c \<le> 57))"

function sub_non_alnum :: "pystr \<Rightarrow> pystr" where
  "sub_non_alnum [] = []"
| "sub_non_alnum (c # cs) =
     (if is_az09 c then c # sub_non_alnum cs
      else dash # sub_non_alnum (dropWhile (\<lambda>d. \<not> is_az09 d) cs))"
  by pat_completeness auto
termination
  by (relation "measure length") (auto simp: less_Suc_eq_le length_dropWhile_le)

function sub_dashes :: "pystr \<Rightarrow> pystr" where
  "sub_dashes [] = []"
| "sub_dashes [c] = [c]"
| "sub_dashes (c # d # cs) =
     (if c = dash \<and> d = dash then dash # sub_dashes (dropWhile (\<lambda>e. e = dash) cs)
      else c # sub_dashes (d # cs))"
  by pat_completeness auto
termination
  by (relation "measure length") (auto simp: less_Suc_eq_le intro: le_SucI length_dropWhile_le)

definition slugify :: "unicode \<Rightarrow> pystr \<Rightarrow> pystr" where
  "slugify U text =
     (let text1 = py_strip U (py_lower U text);
          text2 = sub_non_alnum text1;
          text3 = py_strip_chars (asc ''-'') (sub_dashes text2)
      in if text3 = [] then asc ''logo'' else text3)"

section \<open>JSON values and \<open>json.dumps\<close>\<close>

text \<open>
  What \<open>json.loads\<close> returns: \<open>None\<close>, a bool, an int, a str, a list or a dict (its items
  in insertion order). Floats are left out.
\<close>

datatype json =
    JNull
  | JBool bool
  | JInt int
  | JStr pystr
  | JArr "json list"
  | JObj "(pystr \<times> json) list"

text \<open>
  \<open>json.dumps\<close> with its defaults: separators \<open>", "\<close> and \<open>": "\<close>, and \<open>ensure_ascii\<close>, which
  keeps the printable ASCII code points except the quote and the backslash and escapes
  every other one, beyond the BMP as a surrogate pair.
\<close>

definition hex_digit :: "nat \<Rightarrow> codepoint" where
  "hex_digit d = (if d < 10 then 48 + d else 87 + d)"

definition hex4 :: "nat \<Rightarrow> pystr" where
  "hex4 n = [hex_digit (n div 4096 mod 16), hex_digit (n div 256 mod 16),
             hex_digit (n div 16 mod 16), hex_digit (n mod 16)]"

definition json_escape :: "codepoint \<Rightarrow> pystr" where
  "json_escape c =
     (if c = 92 then [92, 92]
      else if c = 34 then [92, 34]
      else if 32 \<le> c \<and> c \<le> 126 then [c]
      else if c = 8 then [92, 98]
      else if c = 12 then [92, 102]
      else if c = 10 then [92, 110]
      else if c = 13 then [92, 114]
      else if c = 9 then [92, 116]
      else if c < 65536 then [92, 117] @ hex4 c
      else [92, 117] @ hex4 (55296 + (c - 65536) div 1024 mod 1024)
         @ [92, 117] @ hex4 (56320 + (c - 65536) mod 1024))"

definition json_quote :: "pystr \<Rightarrow> pystr" where
  "json_quote s = [34] @ concat (map json_escape s) @ [34]"

fun json_dumps :: "json \<Rightarrow> pystr" where
  "json_dumps JNull = asc ''null''"
| "json_dumps (JBool b) = (if b then asc ''true'' else asc ''false'')"
| "json_dumps (JInt n) = str_int n"
| "json_dumps (JStr s) = json_quote s"
| "json_dumps (JArr xs) = asc ''['' @ join (asc '', '') (map json_dumps xs) @ asc '']''"
| "json_dumps (JObj kvs) =
     asc ''{'' @ join (asc '', '') (map (\<lambda>kv. json_quote (fst kv) @ asc '': '' @ json_dumps (snd kv)) kvs)
       @ asc ''}''"

section \<open>Exceptions\<close>

datatype lib_error =
    HTTPError int pystr pystr
  | URLError pystr
  | OtherError pystr

datatype py_error =
    RuntimeError pystr "lib_error option"
  | Lib lib_error
  | IndexError
  | KeyError
  | TypeError
  | AttributeError

text \<open>
  \<open>lib_error\<close> is an exception raised inside a library call: \<open>HTTPError code msg body\<close>
  with the status code, the reason phrase and the decoded body, \<open>URLError reason\<close> with
  the reason's text (\<open>HTTPError\<close> is a subclass of \<open>URLError\<close>), and \<open>OtherError\<close> for any
  other one. \<open>py_error\<close> is what a function of the scripts ends with when it raises:
  \<open>RuntimeError msg cause\<close> with its message and its \<open>__cause__\<close> (set by
  \<open>raise ... from e\<close>), a library exception passing through (\<open>Lib\<close>), or the interpreter's
  own exception of a subscript or an attribute access.
\<close>

fun is_URLError :: "lib_error \<Rightarrow> bool" where
  "is_URLError (URLError r) = True"
| "is_URLError (HTTPError c m b) = True"
| "is_URLError (OtherError t) = False"

text \<open>\<open>str(e)\<close> of a \<open>URLError\<close>.\<close>

fun str_URLError :: "lib_error \<Rightarrow> pystr" where
  "str_URLError (URLError r) = asc ''<urlopen error '' @ r @ asc ''>''"
| "str_URLError (HTTPError c m b) = asc ''HTTP Error '' @ str_int c @ asc '': '' @ m"
| "str_URLError (OtherError t) = t"

text \<open>\<open>d.get(key, default)\<close>, \<open>x[0]\<close> and the truth value of a JSON value.\<close>

fun json_get :: "json \<Rightarrow> pystr \<Rightarrow> json \<Rightarrow> py_error + json" where
  "json_get (JObj kvs) k d = Inr (case map_of kvs k of None \<Rightarrow> d | Some v \<Rightarrow> v)"
| "json_get j k d = Inl AttributeError"

fun subscript0 :: "json \<Rightarrow> py_error + json" where
  "subscript0 (JArr []) = Inl IndexError"
| "subscript0 (JArr (x # xs)) = Inr x"
| "subscript0 (JStr []) = Inl IndexError"
| "subscript0 (JStr (c # cs)) = Inr (JStr [c])"
| "subscript0 (JObj kvs) = Inl KeyError"
| "subscript0 j = Inl TypeError"

fun truthy :: "json \<Rightarrow> bool" where
  "truthy JNull = False"
| "truthy (JBool b) = b"
| "truthy (JInt n) = (n \<noteq> 0)"
| "truthy (JStr s) = (s \<noteq> [])"
| "truthy (JArr xs) = (xs \<noteq> [])"
| "truthy (JObj kvs) = (kvs \<noteq> [])"

section \<open>The world outside the scripts\<close>

text \<open>
  \<open>urlopen_post n auth body\<close> is what the \<open>n\<close>-th image request's POST to the vendor
  gives: the parsed payload (\<open>json.loads(resp.read().decode("utf-8"))\<close>) or the exception
  raised inside the \<open>with\<close> block. \<open>urlopen_get n url\<close> is what fetching the retrieval URL
  gives: the bytes read or the exception. \<open>b64decode\<close> is \<open>base64.b64decode\<close>.
  \<open>environ\<close> is \<open>os.environ\<close>, \<open>now\<close> the formatted time stamp, \<open>prompts_file\<close> the parsed
  prompt file (or the exception of reading and parsing it), \<open>files\<close> the file system
  before the run: the content at a path, a path being a directory and a file name.
\<close>

record prompt_record =
  p_id :: int
  p_title :: pystr
  p_prompt :: pystr

record generated_item =
  it_id :: int
  it_title :: pystr
  it_prompt :: pystr
  it_file :: pystr

text \<open>
  A file holds bytes, text, or the manifest: \<open>Manifest items\<close> stands for the text
  \<open>json.dumps(items, indent=2)\<close>, which is never empty.
\<close>

datatype content = Raw bytes | Text pystr | Manifest "generated_item list"

type_synonym path = "pystr \<times> pystr"

record world =
  environ :: "pystr \<rightharpoonup> pystr"
  now :: pystr
  prompts_file :: "lib_error + prompt_record list"
  files :: "path \<rightharpoonup> content"
  urlopen_post :: "nat \<Rightarrow> pystr \<Rightarrow> pystr \<Rightarrow> lib_error + json"
  urlopen_get :: "nat \<Rightarrow> json \<Rightarrow> lib_error + bytes"
  b64decode :: "json \<Rightarrow> lib_error + bytes"

section \<open>request_image\<close>

definition request_body :: "pystr \<Rightarrow> pystr \<Rightarrow> pystr \<Rightarrow> pystr \<Rightarrow> pystr \<Rightarrow> pystr" where
  "request_body prompt model size' quality style =
     json_dumps (JObj [(asc ''model'', JStr model), (asc ''prompt'', JStr prompt),
                       (asc ''size'', JStr size'), (asc ''n'', JInt 1),
                       (asc ''quality'', JStr quality), (asc ''style'', JStr style)])"

text \<open>
  The POST and its \<open>except urllib.error.HTTPError\<close> handler, the same in both scripts.
\<close>

definition post_images ::
  "world \<Rightarrow> nat \<Rightarrow> pystr \<Rightarrow> pystr \<Rightarrow> pystr \<Rightarrow> pystr \<Rightarrow> pystr \<Rightarrow> pystr \<Rightarrow> py_error + json" where
  "post_images W n api_key prompt model size' quality style =
     (case urlopen_post W n (asc ''Bearer '' @ api_key)
             (request_body prompt model size' quality style) of
        Inl e \<Rightarrow>
          (case e of
             HTTPError code msg err \<Rightarrow>
               Inl (RuntimeError
                      (asc ''OpenAI Images API failed ('' @ str_int code @ asc ''): '' @ err) (Some e))
           | _ \<Rightarrow> Inl (Lib e))
      | Inr payload \<Rightarrow> Inr payload)"

text \<open>
  \<^verbatim>\<open>
  data = payload.get("data", [{}])[0]
  b64 = data.get("b64_json")
  url = data.get("url")
  \<close>
\<close>

definition payload_fields :: "json \<Rightarrow> py_error + (json \<times> json)" where
  "payload_fields payload =
     (case json_get payload (asc ''data'') (JArr [JObj []]) of
        Inl e \<Rightarrow> Inl e
      | Inr lst \<Rightarrow>
          (case subscript0 lst of
             Inl e \<Rightarrow> Inl e
           | Inr data \<Rightarrow>
               (case json_get data (asc ''b64_json'') JNull of
                  Inl e \<Rightarrow> Inl e
                | Inr b64 \<Rightarrow>
                    (case json_get data (asc ''url'') JNull of
                       Inl e \<Rightarrow> Inl e
                     | Inr url \<Rightarrow> Inr (b64, url)))))"

definition lift_lib :: "lib_error + 'a \<Rightarrow> py_error + 'a" where
  "lift_lib r = (case r of Inl e \<Rightarrow> Inl (Lib e) | Inr x \<Rightarrow> Inr x)"

definition unexpected_response :: "json \<Rightarrow> py_error" where
  "unexpected_response payload =
     RuntimeError (asc ''Unexpected response: '' @ take 500 (json_dumps payload)) None"

text \<open>\<open>generate.py\<close>: the fetch of the retrieval URL is wrapped in \<open>try ... except URLError\<close>.\<close>

definition request_image ::
  "world \<Rightarrow> nat \<Rightarrow> pystr \<Rightarrow> pystr \<Rightarrow> pystr \<Rightarrow> pystr \<Rightarrow> pystr \<Rightarrow> pystr \<Rightarrow> py_error + bytes" where
  "request_image W n api_key prompt model size' quality style =
     (case post_images W n api_key prompt model size' quality style of
        Inl e \<Rightarrow> Inl e
      | Inr payload \<Rightarrow>
          (case payload_fields payload of
             Inl e \<Rightarrow> Inl e
           | Inr (b64, url) \<Rightarrow>
               if truthy b64 then lift_lib (b64decode W b64)
               else if truthy url then
                 (case urlopen_get W n url of
                    Inl e \<Rightarrow>
                      if is_URLError e
                      then Inl (RuntimeError (asc ''Failed to download image: '' @ str_URLError e)
                                  (Some e))
                      else Inl (Lib e)
                  | Inr r \<Rightarrow> Inr r)
               else Inl (unexpected_response payload)))"

text \<open>\<open>generate2.py\<close>: the fetch of the retrieval URL has no handler.\<close>

definition request_image2 ::
  "world \<Rightarrow> nat \<Rightarrow> pystr \<Rightarrow> pystr \<Rightarrow> pystr \<Rightarrow> pystr \<Rightarrow> pystr \<Rightarrow> pystr \<Rightarrow> py_error + bytes" where
  "request_image2 W n api_key prompt model size' quality style =
     (case post_images W n api_key prompt model size' quality style of
        Inl e \<Rightarrow> Inl e
      | Inr payload \<Rightarrow>
          (case payload_fields payload of
             Inl e \<Rightarrow> Inl e
           | Inr (b64, url) \<Rightarrow>
               if truthy b64 then lift_lib (b64decode W b64)
               else if truthy url then lift_lib (urlopen_get W n url)
               else Inl (unexpected_response payload)))"

section \<open>write_gallery\<close>

text \<open>
  The two f-strings of \<open>write_gallery\<close>, as \<open>generate.py\<close> has them: the figure of one
  item, stripped, and the page around the figures joined by newlines. The page is written
  to \<open>index.html\<close> in the output directory.
\<close>

definition thumb :: "unicode \<Rightarrow> generated_item \<Rightarrow> pystr" where
  \<open>thumb U it =
     py_strip U
       (asc ''
<figure>
  <a href="''
        @ it_file it
        @ asc ''"><img src="''
        @ it_file it
        @ asc ''" loading="lazy" /></a>
  <figcaption><strong>''
        @ fmt_02d (it_id it)
        @ asc ''.</strong> ''
        @ it_title it
        @ asc ''<br/><small>''
        @ it_prompt it
        @ asc ''</small></figcaption>
</figure>
'')\<close>

definition gallery_html :: "unicode \<Rightarrow> pystr \<Rightarrow> generated_item list \<Rightarrow> pystr" where
  \<open>gallery_html U out_dir items =
     (let thumbs = join [10] (map (thumb U) items)
      in asc ''<!doctype html>
<meta charset="utf-8" />
<title>T Alchemy ''
        @ [8212]
        @ asc '' Logo Exploration</title>
<style>
  :root { color-scheme: dark; }
  body { margin: 24px; font: 14px/1.4 ui-sans-serif, system-ui; background: #0b0f14; color: #e8edf2; }
  h1 { font-size: 20px; margin: 0 0 8px; }
  p { margin: 0 0 18px; color: #b7c2cc; }
  .grid { display: grid; grid-template-columns: repeat(auto-fill, minmax(260px, 1fr)); gap: 16px; }
  figure { margin: 0; padding: 12px; border: 1px solid #1e2a36; border-radius: 14px; background: #0f1620; }
  img { width: 100%; height: auto; border-radius: 10px; display: block; background: #ffffff; }
  figcaption { margin-top: 10px; color: #b7c2cc; }
  small { color: #8ea2b2; }
</style>
<h1>T Alchemy ''
        @ [8212]
        @ asc '' 50 Logo Concepts (PNG)</h1>
<p>Generated concepts for review. Files are in <code>''
        @ out_dir
        @ asc ''</code>.</p>
<div class="grid">
''
        @ thumbs
        @ asc ''
</div>
'')\<close>

text \<open>\<open>generate2.py\<close>: no prompt in the caption, no directory in the page.\<close>

definition thumb2 :: "unicode \<Rightarrow> generated_item \<Rightarrow> pystr" where
  \<open>thumb2 U it =
     py_strip U
       (asc ''
<figure>
  <a href="''
        @ it_file it
        @ asc ''"><img src="''
        @ it_file it
        @ asc ''" loading="lazy" /></a>
  <figcaption><strong>''
        @ fmt_02d (it_id it)
        @ asc ''.</strong> ''
        @ it_title it
        @ asc ''</figcaption>
</figure>
'')\<close>

definition gallery_html2 :: "unicode \<Rightarrow> generated_item list \<Rightarrow> pystr" where
  \<open>gallery_html2 U items =
     (let thumbs = join [10] (map (thumb2 U) items)
      in asc ''<!doctype html>
<meta charset="utf-8" />
<title>T Alchemy ''
        @ [8212]
        @ asc '' Logo Exploration (Lockups)</title>
<style>
  :root { color-scheme: dark; }
  body { margin: 24px; font: 14px/1.4 ui-sans-serif, system-ui; background: #0b0f14; color: #e8edf2; }
  h1 { font-size: 20px; margin: 0 0 8px; }
  p { margin: 0 0 18px; color: #b7c2cc; }
  .grid { display: grid; grid-template-columns: repeat(auto-fill, minmax(260px, 1fr)); gap: 16px; }
  figure { margin: 0; padding: 12px; border: 1px solid #1e2a36; border-radius: 14px; background: #0f1620; }
  img { width: 100%; height: auto; border-radius: 10px; display: block; background: #ffffff; }
  figcaption { margin-top: 10px; color: #b7c2cc; }
</style>
<h1>T Alchemy ''
        @ [8212]
        @ asc '' 50 Lockup Concepts (B/W PNG)</h1>
<p>Generated concepts for review.</p>
<div class="grid">
''
        @ thumbs
        @ asc ''
</div>
'')\<close>

section \<open>main\<close>

text \<open>
  What a run changes: the file system, the prompts \<open>request_image\<close> was called with (in
  order), and the lines printed to the error stream. Progress lines on the standard output
  and the \<open>mkdir\<close> of the output directory are left out; writing a file always succeeds.
\<close>

record state =
  fs :: "path \<rightharpoonup> content"
  requested :: "pystr list"
  stderr :: "pystr list"

datatype outcome = Exit int | Raised py_error

definition environ_get :: "world \<Rightarrow> pystr \<Rightarrow> pystr \<Rightarrow> pystr" where
  "environ_get W k d = (case environ W k of None \<Rightarrow> d | Some v \<Rightarrow> v)"

definition default_model :: pystr where
  "default_model = asc ''dall-e-3''"

definition default_size :: pystr where
  "default_size = asc ''1024x1024''"

definition default_quality :: pystr where
  "default_quality = asc ''hd''"

definition default_style :: pystr where
  "default_style = asc ''vivid''"

text \<open>\<open>f"{p['id']:02d}-{slugify(p['title'])[:limit]}.png"\<close>, and the manifest entry.\<close>

definition fname :: "nat \<Rightarrow> unicode \<Rightarrow> prompt_record \<Rightarrow> pystr" where
  "fname limit U p = fmt_02d (p_id p) @ asc ''-'' @ take limit (slugify U (p_title p)) @ asc ''.png''"

definition item :: "prompt_record \<Rightarrow> pystr \<Rightarrow> generated_item" where
  "item p file = \<lparr>it_id = p_id p, it_title = p_title p, it_prompt = p_prompt p, it_file = file\<rparr>"

definition write_file :: "path \<Rightarrow> content \<Rightarrow> state \<Rightarrow> state" where
  "write_file path c s = s\<lparr>fs := (fs s)(path \<mapsto> c)\<rparr>"

definition write_gallery :: "unicode \<Rightarrow> pystr \<Rightarrow> generated_item list \<Rightarrow> state \<Rightarrow> state" where
  "write_gallery U out_dir items s =
     write_file (out_dir, asc ''index.html'') (Text (gallery_html U out_dir items)) s"

definition write_gallery2 :: "unicode \<Rightarrow> pystr \<Rightarrow> generated_item list \<Rightarrow> state \<Rightarrow> state" where
  "write_gallery2 U out_dir items s =
     write_file (out_dir, asc ''index.html'') (Text (gallery_html2 U items)) s"

text \<open>
  The loop of \<open>generate.py\<close>: request, then name and write the file, then the manifest
  entry. An exception of \<open>request_image\<close> ends the loop where it stands.
\<close>

fun generate_all ::
  "unicode \<Rightarrow> world \<Rightarrow> pystr \<Rightarrow> pystr \<Rightarrow> prompt_record list \<Rightarrow> generated_item list \<Rightarrow> state
     \<Rightarrow> (py_error + generated_item list) \<times> state" where
  "generate_all U W api_key out_dir [] items_out s = (Inr items_out, s)"
| "generate_all U W api_key out_dir (p # ps) items_out s =
     (case request_image W (length (requested s)) api_key (p_prompt p)
             default_model default_size default_quality default_style of
        Inl e \<Rightarrow> (Inl e, s\<lparr>requested := requested s @ [p_prompt p]\<rparr>)
      | Inr img_bytes \<Rightarrow>
          generate_all U W api_key out_dir ps (items_out @ [item p (fname 60 U p)])
            (write_file (out_dir, fname 60 U p) (Raw img_bytes)
               (s\<lparr>requested := requested s @ [p_prompt p]\<rparr>)))"

definition main :: "unicode \<Rightarrow> world \<Rightarrow> outcome \<times> state" where
  "main U W =
     (let s0 = \<lparr>fs = files W, requested = [], stderr = []\<rparr>;
          api_key = py_strip U (environ_get W (asc ''OPENAI_API_KEY'') [])
      in if api_key = [] then (Exit 2, s0\<lparr>stderr := stderr s0 @ [asc ''Missing OPENAI_API_KEY'']\<rparr>)
         else
           (case prompts_file W of
              Inl e \<Rightarrow> (Raised (Lib e), s0)
            | Inr prompts \<Rightarrow>
                (let out_dir = asc ''out/'' @ now W
                 in case generate_all U W api_key out_dir prompts [] s0 of
                      (Inl e, s) \<Rightarrow> (Raised e, s)
                    | (Inr items_out, s) \<Rightarrow>
                        (Exit 0,
                         write_gallery U out_dir items_out
                           (write_file (out_dir, asc ''generated.json'') (Manifest items_out) s)))))"

text \<open>
  The loop of \<open>generate2.py\<close>: name the file first, and skip the request when a file of
  positive size is already there (\<open>out_path.exists() and out_path.stat().st_size > 0\<close>).
\<close>

fun nonempty :: "content \<Rightarrow> bool" where
  "nonempty (Raw b) = (b \<noteq> [])"
| "nonempty (Text t) = (t \<noteq> [])"
| "nonempty (Manifest items) = True"

definition present :: "(path \<rightharpoonup> content) \<Rightarrow> path \<Rightarrow> bool" where
  "present f path = (case f path of None \<Rightarrow> False | Some c \<Rightarrow> nonempty c)"

fun generate_all2 ::
  "unicode \<Rightarrow> world \<Rightarrow> pystr \<Rightarrow> pystr \<Rightarrow> prompt_record list \<Rightarrow> generated_item list \<Rightarrow> state
     \<Rightarrow> (py_error + generated_item list) \<times> state" where
  "generate_all2 U W api_key out_dir [] items_out s = (Inr items_out, s)"
| "generate_all2 U W api_key out_dir (p # ps) items_out s =
     (if present (fs s) (out_dir, fname 70 U p)
      then generate_all2 U W api_key out_dir ps (items_out @ [item p (fname 70 U p)]) s
      else
        (case request_image2 W (length (requested s)) api_key (p_prompt p)
                default_model default_size default_quality default_style of
           Inl e \<Rightarrow> (Inl e, s\<lparr>requested := requested s @ [p_prompt p]\<rparr>)
         | Inr img_bytes \<Rightarrow>
             generate_all2 U W api_key out_dir ps (items_out @ [item p (fname 70 U p)])
               (write_file (out_dir, fname 70 U p) (Raw img_bytes)
                  (s\<lparr>requested := requested s @ [p_prompt p]\<rparr>))))"

definition out_dir2 :: "unicode \<Rightarrow> world \<Rightarrow> pystr" where
  "out_dir2 U W =
     (let latest = py_strip U (environ_get W (asc ''LATEST_OUT_DIR'') [])
      in if latest \<noteq> [] then latest else asc ''out/'' @ now W)"

definition main2 :: "unicode \<Rightarrow> world \<Rightarrow> outcome \<times> state" where
  "main2 U W =
     (let s0 = \<lparr>fs = files W, requested = [], stderr = []\<rparr>;
          api_key = py_strip U (environ_get W (asc ''OPENAI_API_KEY'') [])
      in if api_key = [] then (Exit 2, s0\<lparr>stderr := stderr s0 @ [asc ''Missing OPENAI_API_KEY'']\<rparr>)
         else
           (case prompts_file W of
              Inl e \<Rightarrow> (Raised (Lib e), s0)
            | Inr prompts \<Rightarrow>
                (let out_dir = out_dir2 U W
                 in case generate_all2 U W api_key out_dir prompts [] s0 of
                      (Inl e, s) \<Rightarrow> (Raised e, s)
                    | (Inr items_out, s) \<Rightarrow>
                        (Exit 0,
                         write_gallery2 U out_dir items_out
                           (write_file (out_dir, asc ''generated.json'') (Manifest items_out) s)))))"

text \<open>The two scripts side by side, for the properties they share.\<close>

datatype script = Generate | Generate2

fun run :: "script \<Rightarrow> unicode \<Rightarrow> world \<Rightarrow> outcome \<times> state" where
  "run Generate U W = main U W"
| "run Generate2 U W = main2 U W"

fun slug_limit :: "script \<Rightarrow> nat" where
  "slug_limit Generate = 60"
| "slug_limit Generate2 = 70"

fun out_dir_of :: "script \<Rightarrow> unicode \<Rightarrow> world \<Rightarrow> pystr" where
  "out_dir_of Generate U W = asc ''out/'' @ now W"
| "out_dir_of Generate2 U W = out_dir2 U W"

section \<open>Notions the properties are stated with\<close>

text \<open>
  The code points a slug is made of, and the shape of a slug: not empty, slug code points
  only, no two dashes in a row, no dash at either end.
\<close>

definition slug_char :: "codepoint \<Rightarrow> bool" where
  "slug_char c = (is_az09 c \<or> c = dash)"

definition slug_shape :: "pystr \<Rightarrow> bool" where
  "slug_shape r \<longleftrightarrow>
     r \<noteq> [] \<and> (\<forall>c \<in> set r. slug_char c) \<and> \<not> sublist [dash, dash] r \<and> hd r \<noteq> dash \<and> last r \<noteq> dash"

text \<open>
  What the properties need of the Unicode tables: a non-ASCII code point that is not
  alphanumeric does not lower to anything in \<open>[a-z0-9]\<close>. (The code points outside ASCII
  whose lowercase holds an ASCII letter are U+0130 and U+212A, both letters.)
  \<open>unicode_sample\<close> is a fragment of the tables, to run the definitions on.
\<close>

definition unicode_ok :: "unicode \<Rightarrow> bool" where
  "unicode_ok U =
     (\<forall>s i. i < length s \<longrightarrow> 128 \<le> s ! i \<longrightarrow> \<not> alnum_tbl U (s ! i) \<longrightarrow>
            (\<forall>d \<in> set (lower_tbl U s i). \<not> is_az09 d))"

definition unicode_sample :: unicode where
  "unicode_sample =
     \<lparr>lower_tbl = (\<lambda>s i. if s ! i = 8490 then [107]
                         else if s ! i = 304 then [105, 775]
                         else if s ! i = 201 then [233]
                         else [s ! i]),
      space_tbl = (\<lambda>c. c = 133 \<or> c = 160 \<or> c = 8232),
      alnum_tbl = (\<lambda>c. c = 8490 \<or> c = 304 \<or> c = 201 \<or> c = 233)\<rparr>"

text \<open>The manifest a run left in a directory, read back from \<open>generated.json\<close>.\<close>

definition manifest :: "pystr \<Rightarrow> state \<Rightarrow> generated_item list option" where
  "manifest out_dir s =
     (case fs s (out_dir, asc ''generated.json'') of
        Some (Manifest items) \<Rightarrow> Some items
      | _ \<Rightarrow> None)"

text \<open>
  A dict has nothing usable under a key when the key is absent or its value is falsy:
  what \<open>if b64:\<close> and \<open>if url:\<close> test.
\<close>

definition lacks :: "(pystr \<times> json) list \<Rightarrow> pystr \<Rightarrow> bool" where
  "lacks d k = (\<not> truthy (case map_of d k of None \<Rightarrow> JNull | Some v \<Rightarrow> v))"

text \<open>
  Concrete worlds to run the scripts in: an environment with the credential and a resume
  directory, two prompt records, a vendor that always answers \<open>response\<close>, a retrieval
  fetch that always fails with a \<open>URLError\<close>, and a decoder that always gives four bytes.
\<close>

definition sample_environ :: "pystr \<rightharpoonup> pystr" where
  "sample_environ = [asc ''OPENAI_API_KEY'' \<mapsto> asc '' sk-test '', asc ''LATEST_OUT_DIR'' \<mapsto> asc ''out/run1'']"

definition sample_prompts :: "prompt_record list" where
  "sample_prompts =
     [\<lparr>p_id = 1, p_title = asc ''Bold T Mark'', p_prompt = asc ''a bold letter T''\<rparr>,
      \<lparr>p_id = 12, p_title = asc ''Alchemy <&> Flask'', p_prompt = asc ''a flask''\<rparr>]"

definition sample_world :: "json \<Rightarrow> (path \<rightharpoonup> content) \<Rightarrow> world" where
  "sample_world response fs0 =
     \<lparr>environ = sample_environ,
      now = asc ''2024-05-06-07-08-09'',
      prompts_file = Inr sample_prompts,
      files = fs0,
      urlopen_post = (\<lambda>n auth body. Inr response),
      urlopen_get = (\<lambda>n url. Inl (URLError (asc ''timed out''))),
      b64decode = (\<lambda>b64. Inr [137, 80, 78, 71])\<rparr>"

definition url_response :: json where
  "url_response = JObj [(asc ''data'', JArr [JObj [(asc ''url'', JStr (asc ''https://x/y.png''))]])]"

definition b64_response :: json where
  "b64_response = JObj [(asc ''data'', JArr [JObj [(asc ''b64_json'', JStr (asc ''iVBORw==''))]])]"

definition empty_data_response :: json where
  "empty_data_response = JObj [(asc ''data'', JArr [])]"

definition resume_files :: "path \<rightharpoonup> content" where
  "resume_files = [(asc ''out/run1'', asc ''01-bold-t-mark.png'') \<mapsto> Raw [137, 80, 78, 71],
                   (asc ''out/run1'', asc ''12-alchemy-flask.png'') \<mapsto> Raw []]"

definition dup_prompts :: "prompt_record list" where
  "dup_prompts =
     [\<lparr>p_id = 1, p_title = asc ''Bold T Mark'', p_prompt = asc ''a bold letter T''\<rparr>,
      \<lparr>p_id = 1, p_title = asc ''bold-t-mark'', p_prompt = asc ''another bold letter T''\<rparr>]"

definition dup_world :: world where
  "dup_world = (sample_world b64_response Map.empty)\<lparr>prompts_file := Inr dup_prompts\<rparr>"

definition no_key_world :: world where
  "no_key_world = (sample_world b64_response resume_files)\<lparr>environ := [asc ''OPENAI_API_KEY'' \<mapsto> asc ''  '']\<rparr>"

text \<open>
  The image request of a script, and a run in which every image request succeeds,
  whatever its number.
\<close>

fun request_image_of ::
  "script \<Rightarrow> world \<Rightarrow> nat \<Rightarrow> pystr \<Rightarrow> pystr \<Rightarrow> pystr \<Rightarrow> pystr \<Rightarrow> pystr \<Rightarrow> pystr \<Rightarrow> py_error + bytes" where
  "request_image_of Generate = request_image"
| "request_image_of Generate2 = request_image2"

definition all_requests_succeed :: "script \<Rightarrow> world \<Rightarrow> pystr \<Rightarrow> prompt_record list \<Rightarrow> bool" where
  "all_requests_succeed sc W api_key ps =
     (\<forall>n. \<forall>p \<in> set ps. \<exists>img. request_image_of sc W n api_key (p_prompt p)
                                   default_model default_size default_quality default_style = Inr img)"

text \<open>
  The number a string of decimal digits writes, and the zero-padded form of an integer at
  width two: for a number that is not negative, digits only, at least two of them, no
  zero in front of more than two, and the number as their value; for a negative number, a
  minus sign and then its digits with no zero in front.
\<close>

definition decimal_value :: "pystr \<Rightarrow> nat" where
  "decimal_value s = foldl (\<lambda>a c. 10 * a + (c - 48)) 0 s"

definition decimal_of :: "nat \<Rightarrow> nat \<Rightarrow> pystr \<Rightarrow> bool" where
  "decimal_of width n s \<longleftrightarrow>
     width \<le> length s \<and> (\<forall>c \<in> set s. 48 \<le> c \<and> c \<le> 57) \<and> decimal_value s = n
     \<and> (width < length s \<longrightarrow> hd s \<noteq> 48)"

definition zero_padded :: "int \<Rightarrow> pystr \<Rightarrow> bool" where
  "zero_padded n s \<longleftrightarrow>
     (if n < 0 then s \<noteq> [] \<and> hd s = dash \<and> decimal_of 1 (nat (- n)) (tl s)
      else decimal_of 2 (nat n) s)"

text \<open>
  The opening tag of a figure, and the number of places of a string at which a pattern
  starts.
\<close>

definition figure_tag :: pystr where
  "figure_tag = asc ''<figure>''"

fun occurrences :: "pystr \<Rightarrow> pystr \<Rightarrow> nat" where
  "occurrences p [] = 0"
| "occurrences p (c # cs) = (if prefix p (c # cs) then 1 else 0) + occurrences p cs"

text \<open>
  The figure block of a manifest entry as the pages show it: a link to the entry's file
  around the embedded file, and a caption with the two-digit id, the title and, where the
  page has it, the prompt. \<open>field_occurrences\<close> counts the figure tags that the
  interpolated fields of an entry bring into its block.
\<close>

definition figure_block :: "bool \<Rightarrow> generated_item \<Rightarrow> pystr" where
  \<open>figure_block with_prompt it =
     asc ''<figure>
  <a href="''
      @ it_file it
      @ asc ''"><img src="''
      @ it_file it
      @ asc ''" loading="lazy" /></a>
  <figcaption><strong>''
      @ fmt_02d (it_id it)
      @ asc ''.</strong> ''
      @ it_title it
      @ (if with_prompt then asc ''<br/><small>'' @ it_prompt it @ asc ''</small>'' else [])
      @ asc ''</figcaption>
</figure>''\<close>

definition field_occurrences :: "bool \<Rightarrow> generated_item \<Rightarrow> nat" where
  "field_occurrences with_prompt it =
     2 * occurrences figure_tag (it_file it) + occurrences figure_tag (it_title it)
       + (if with_prompt then occurrences figure_tag (it_prompt it) else 0)"

text \<open>
  Manifests to render: the one of the sample prompts, and one whose only entry has a
  figure tag for a title.
\<close>

definition sample_items :: "generated_item list" where
  "sample_items =
     [\<lparr>it_id = 1, it_title = asc ''Bold T Mark'', it_prompt = asc ''a bold letter T'',
       it_file = asc ''01-bold-t-mark.png''\<rparr>,
      \<lparr>it_id = 12, it_title = asc ''Alchemy <&> Flask'', it_prompt = asc ''a flask'',
       it_file = asc ''12-alchemy-flask.png''\<rparr>]"

definition figure_items :: "generated_item list" where
  "figure_items =
     [\<lparr>it_id = 3, it_title = asc ''<figure>'', it_prompt = asc ''a figure'',
       it_file = asc ''03-figure.png''\<rparr>]"

section \<open>Properties of slugify\<close>

lemma not_az09_dash: "\<not> is_az09 dash"
  by (simp add: is_az09_def dash_def)

lemma asc_dash: "asc ''-'' = [dash]"
  by (simp add: asc_def dash_def)

lemma asc_logo: "asc ''logo'' = [108, 111, 103, 111]"
  by (simp add: asc_def)

lemma prefix_dd: "prefix [dash, dash] (c # cs) \<longleftrightarrow> c = dash \<and> cs \<noteq> [] \<and> hd cs = dash"
  by (cases cs) auto

lemma prefix_d: "prefix [d] cs \<longleftrightarrow> cs \<noteq> [] \<and> hd cs = d"
  by (cases cs) auto

lemma hd_sub_non_alnum:
  "t = [] \<or> is_az09 (hd t) \<Longrightarrow> sub_non_alnum t = [] \<or> hd (sub_non_alnum t) \<noteq> dash"
  by (cases t) (auto simp: not_az09_dash)

lemma dropWhile_start: "dropWhile P cs = [] \<or> \<not> P (hd (dropWhile P cs))"
  by (metis hd_dropWhile)

lemma sub_non_alnum_chars: "c \<in> set (sub_non_alnum s) \<Longrightarrow> slug_char c"
  by (induction s rule: sub_non_alnum.induct) (auto simp: slug_char_def split: if_splits)

lemma sub_non_alnum_no_dd: "\<not> sublist [dash, dash] (sub_non_alnum s)"
proof (induction s rule: sub_non_alnum.induct)
  case 1
  then show ?case by simp
next
  case (2 c cs)
  show ?case
  proof (cases "is_az09 c")
    case True
    with 2 show ?thesis
      by (auto simp: sublist_Cons_right prefix_dd not_az09_dash)
  next
    case False
    let ?t = "dropWhile (\<lambda>d. \<not> is_az09 d) cs"
    have "?t = [] \<or> is_az09 (hd ?t)"
      using dropWhile_start [of "\<lambda>d. \<not> is_az09 d" cs] by simp
    then have "sub_non_alnum ?t = [] \<or> hd (sub_non_alnum ?t) \<noteq> dash"
      by (rule hd_sub_non_alnum)
    with False 2 show ?thesis
      by (auto simp: sublist_Cons_right prefix_d)
  qed
qed

lemma sub_dashes_id: "\<not> sublist [dash, dash] s \<Longrightarrow> sub_dashes s = s"
proof (induction s rule: sub_dashes.induct)
  case (3 c d cs)
  from 3(3) have nd: "\<not> (c = dash \<and> d = dash)" and rest: "\<not> sublist [dash, dash] (d # cs)"
    by (auto simp: sublist_Cons_right)
  with 3(2) show ?case by auto
qed simp_all

lemma sub_non_alnum_id:
  "\<forall>c \<in> set s. slug_char c \<Longrightarrow> \<not> sublist [dash, dash] s \<Longrightarrow> sub_non_alnum s = s"
proof (induction s rule: sub_non_alnum.induct)
  case 1
  then show ?case by simp
next
  case (2 c cs)
  from 2(4) have rest: "\<not> sublist [dash, dash] cs" and nd: "\<not> (c = dash \<and> cs \<noteq> [] \<and> hd cs = dash)"
    by (auto simp: sublist_Cons_right prefix_d)
  show ?case
  proof (cases "is_az09 c")
    case True
    with 2 rest show ?thesis by simp
  next
    case False
    with 2(3) have c: "c = dash" by (simp add: slug_char_def)
    have "dropWhile (\<lambda>d. \<not> is_az09 d) cs = cs"
    proof (cases cs)
      case Nil
      then show ?thesis by simp
    next
      case (Cons e es)
      with nd c have "e \<noteq> dash" by simp
      moreover from Cons 2(3) have "slug_char e" by simp
      ultimately show ?thesis using Cons by (simp add: slug_char_def)
    qed
    with False 2 rest c show ?thesis by simp
  qed
qed

lemma strip_where_split: "\<exists>a b. s = a @ strip_where P s @ b"
proof -
  let ?t = "dropWhile P s"
  have "s = takeWhile P s @ ?t" by simp
  moreover have "rev ?t = takeWhile P (rev ?t) @ dropWhile P (rev ?t)" by simp
  then have "?t = rev (dropWhile P (rev ?t)) @ rev (takeWhile P (rev ?t))"
    by (metis rev_append rev_rev_ident)
  ultimately have "s = takeWhile P s @ strip_where P s @ rev (takeWhile P (rev ?t))"
    by (metis strip_where_def)
  then show ?thesis by blast
qed

lemma strip_where_sublist: "sublist (strip_where P s) s"
  using strip_where_split [of s P] by (auto simp: sublist_def)

lemma strip_where_set: "set (strip_where P s) \<subseteq> set s"
  using strip_where_sublist by (rule set_mono_sublist)

lemma strip_where_ends:
  assumes "strip_where P s \<noteq> []"
  shows "\<not> P (hd (strip_where P s))" and "\<not> P (last (strip_where P s))"
proof -
  let ?t = "dropWhile P s"
  let ?u = "dropWhile P (rev ?t)"
  from assms have u: "?u \<noteq> []" by (simp add: strip_where_def)
  then have t: "?t \<noteq> []" by (cases ?t) auto
  have "last (strip_where P s) = hd ?u"
    using u by (simp add: strip_where_def last_rev)
  moreover have "\<not> P (hd ?u)" using u by (metis hd_dropWhile)
  ultimately show "\<not> P (last (strip_where P s))" by simp
  have "hd (strip_where P s) = last ?u"
    using u by (simp add: strip_where_def hd_rev)
  also have "suffix ?u (rev ?t)" by (rule suffix_dropWhile)
  then obtain zs where "rev ?t = zs @ ?u" by (auto simp: suffix_def)
  then have "last ?u = last (rev ?t)"
    using u by (metis last_appendR)
  also have "\<dots> = hd ?t" using t by (simp add: last_rev)
  finally have "hd (strip_where P s) = hd ?t" .
  moreover have "\<not> P (hd ?t)" using t by (metis hd_dropWhile)
  ultimately show "\<not> P (hd (strip_where P s))" by simp
qed

lemma strip_where_id:
  "s = [] \<or> (\<not> P (hd s) \<and> \<not> P (last s)) \<Longrightarrow> strip_where P s = s"
proof (cases s)
  case Nil
  then show ?thesis by (simp add: strip_where_def)
next
  case (Cons c cs)
  assume "s = [] \<or> (\<not> P (hd s) \<and> \<not> P (last s))"
  with Cons have h: "\<not> P (hd s)" and l: "\<not> P (last s)" by auto
  from h Cons have 1: "dropWhile P s = s" by simp
  from Cons have "rev s \<noteq> []" by simp
  moreover from l have "\<not> P (hd (rev s))" by (simp add: hd_rev)
  ultimately have "dropWhile P (rev s) = rev s" by (cases "rev s") auto
  with 1 show ?thesis by (simp add: strip_where_def)
qed

lemma slug_char_ascii: "slug_char c \<Longrightarrow> c < 128 \<and> ascii_lower c = c"
  by (auto simp: slug_char_def is_az09_def dash_def ascii_lower_def)

lemma slug_char_not_space: "slug_char c \<Longrightarrow> \<not> py_isspace U c"
  by (auto simp: slug_char_def is_az09_def dash_def py_isspace_def)

lemma py_lower_id:
  assumes "\<forall>c \<in> set s. slug_char c"
  shows "py_lower U s = s"
proof -
  have "map (\<lambda>i. if s ! i < 128 then [ascii_lower (s ! i)] else lower_tbl U s i) [0..<length s]
      = map (\<lambda>i. [s ! i]) [0..<length s]"
    using assms by (intro map_cong refl) (simp add: slug_char_ascii)
  then have "py_lower U s = concat (map (\<lambda>i. [s ! i]) [0..<length s])"
    unfolding py_lower_def by (rule arg_cong)
  also have "\<dots> = map (\<lambda>i. s ! i) [0..<length s]"
    by (induction "[0..<length s]") auto
  also have "\<dots> = s" by (rule map_nth)
  finally show ?thesis .
qed

lemma slug_shape_logo: "slug_shape (asc ''logo'')"
  by (simp add: slug_shape_def asc_logo slug_char_def is_az09_def dash_def sublist_Cons_right)

lemma slugify_shape: "slug_shape (slugify U x)"
proof -
  let ?t2 = "sub_non_alnum (py_strip U (py_lower U x))"
  let ?t3 = "strip_where (\<lambda>c. c \<in> set [dash]) ?t2"
  have d: "sub_dashes ?t2 = ?t2" by (rule sub_dashes_id) (rule sub_non_alnum_no_dd)
  have eq: "slugify U x = (if ?t3 = [] then asc ''logo'' else ?t3)"
    by (simp add: slugify_def Let_def d py_strip_chars_def asc_dash)
  show ?thesis
  proof (cases "?t3 = []")
    case True
    with eq show ?thesis by (simp add: slug_shape_logo)
  next
    case False
    have sub: "sublist ?t3 ?t2" by (rule strip_where_sublist)
    have chars: "\<forall>c \<in> set ?t3. slug_char c"
      using strip_where_set [of "\<lambda>c. c \<in> set [dash]" ?t2] sub_non_alnum_chars by blast
    have nodd: "\<not> sublist [dash, dash] ?t3"
      using sub sub_non_alnum_no_dd [of "py_strip U (py_lower U x)"]
      by (blast intro: sublist_order.order_trans)
    have ends: "hd ?t3 \<noteq> dash" "last ?t3 \<noteq> dash"
      using strip_where_ends [OF False] by simp_all
    from False chars nodd ends eq show ?thesis
      by (simp add: slug_shape_def)
  qed
qed

lemma slugify_fixed:
  assumes "slug_shape r"
  shows "slugify U r = r"
proof -
  from assms have ne: "r \<noteq> []" and chars: "\<forall>c \<in> set r. slug_char c"
    and nodd: "\<not> sublist [dash, dash] r" and h: "hd r \<noteq> dash" and l: "last r \<noteq> dash"
    by (simp_all add: slug_shape_def)
  from ne chars have "slug_char (hd r)" "slug_char (last r)" by simp_all
  then have "\<not> py_isspace U (hd r)" "\<not> py_isspace U (last r)"
    by (simp_all add: slug_char_not_space)
  then have 1: "py_strip U (py_lower U r) = r"
    by (simp add: py_lower_id [OF chars] py_strip_def strip_where_id)
  have 2: "sub_non_alnum r = r" using chars nodd by (rule sub_non_alnum_id)
  have 3: "sub_dashes r = r" using nodd by (rule sub_dashes_id)
  have 4: "py_strip_chars (asc ''-'') r = r"
    using h l by (simp add: py_strip_chars_def asc_dash strip_where_id)
  show ?thesis using ne by (simp add: slugify_def Let_def 1 2 3 4)
qed

lemma py_lower_set:
  "d \<in> set (py_lower U x) \<Longrightarrow>
     \<exists>i < length x. d \<in> set (if x ! i < 128 then [ascii_lower (x ! i)] else lower_tbl U x i)"
  by (auto simp: py_lower_def)

lemma lower_no_alnum:
  assumes ok: "unicode_ok U" and sym: "\<forall>c \<in> set x. \<not> py_isalnum U c"
    and d: "d \<in> set (py_lower U x)"
  shows "\<not> is_az09 d"
proof -
  from py_lower_set [OF d] obtain i where i: "i < length x"
    and mem: "d \<in> set (if x ! i < 128 then [ascii_lower (x ! i)] else lower_tbl U x i)"
    by blast
  from i sym have na: "\<not> py_isalnum U (x ! i)" by simp
  show ?thesis
  proof (cases "x ! i < 128")
    case True
    with mem have "d = ascii_lower (x ! i)" by simp
    with True na show ?thesis
      by (auto simp: py_isalnum_def ascii_lower_def is_az09_def)
  next
    case False
    with na have "\<not> alnum_tbl U (x ! i)" by (simp add: py_isalnum_def)
    with ok i False mem show ?thesis
      unfolding unicode_ok_def by (simp add: linorder_not_less)
  qed
qed

lemma sub_non_alnum_symbols:
  assumes "\<forall>c \<in> set t. \<not> is_az09 c"
  shows "sub_non_alnum t = (if t = [] then [] else [dash])"
proof (cases t)
  case Nil
  then show ?thesis by simp
next
  case (Cons c cs)
  with assms have "dropWhile (\<lambda>d. \<not> is_az09 d) cs = []"
    by (simp add: dropWhile_eq_Nil_conv)
  moreover from Cons assms have "\<not> is_az09 c" by simp
  ultimately show ?thesis using Cons by (simp del: dropWhile_eq_Nil_conv)
qed

lemma slugify_symbols:
  assumes ok: "unicode_ok U" and sym: "\<forall>c \<in> set x. \<not> py_isalnum U c"
  shows "slugify U x = asc ''logo''"
proof -
  let ?t1 = "py_strip U (py_lower U x)"
  have "\<forall>c \<in> set ?t1. \<not> is_az09 c"
    using strip_where_set [of "py_isspace U" "py_lower U x"] lower_no_alnum [OF ok sym]
    by (auto simp: py_strip_def)
  then have "sub_non_alnum ?t1 = (if ?t1 = [] then [] else [dash])"
    by (rule sub_non_alnum_symbols)
  then have "py_strip_chars (asc ''-'') (sub_dashes (sub_non_alnum ?t1)) = []"
    by (simp add: py_strip_chars_def asc_dash strip_where_def)
  then show ?thesis by (simp add: slugify_def Let_def)
qed

lemma unicode_sample_ok: "unicode_ok unicode_sample"
  by (auto simp: unicode_ok_def unicode_sample_def is_az09_def)

lemma slugify_bold_t_mark: "slugify unicode_sample (asc ''Bold T Mark'') = asc ''bold-t-mark''"
  by code_simp

lemma slugify_punctuation: "slugify unicode_sample (asc '' !? * '') = asc ''logo''"
  by code_simp

text \<open>
  C2: slugify is idempotent: for every input string \<open>x\<close> (and whatever the Unicode tables
  say outside ASCII), \<open>slugify(slugify(x))\<close> equals \<open>slugify(x)\<close>.
\<close>

theorem slugify_idempotent: "slugify U (slugify U x) = slugify U x"
  by (rule slugify_fixed) (rule slugify_shape)

theorem slugify_idempotent_witness:
  "slugify unicode_sample (slugify unicode_sample (asc ''Bold T Mark'')) = asc ''bold-t-mark''"
  using slugify_idempotent [of unicode_sample "asc ''Bold T Mark''"]
  by (simp add: slugify_bold_t_mark)

text \<open>
  C3: slugify is total, and for every input string its result is not empty, holds only
  code points of \<open>[a-z0-9-]\<close> (so it is lowercase), has no two dashes in a row, and neither
  starts nor ends with a dash; for an input with no alphanumeric code point (the empty
  string among them) the result is the default token \<open>logo\<close>. Alphanumeric is Python's
  \<open>str.isalnum\<close>.
\<close>

theorem slugify_total:
  "slugify U x \<noteq> []
   \<and> (\<forall>c \<in> set (slugify U x). is_az09 c \<or> c = dash)
   \<and> \<not> sublist [dash, dash] (slugify U x)
   \<and> hd (slugify U x) \<noteq> dash
   \<and> last (slugify U x) \<noteq> dash
   \<and> (unicode_ok U \<longrightarrow> (\<forall>c \<in> set x. \<not> py_isalnum U c) \<longrightarrow> slugify U x = asc ''logo'')"
  using slugify_shape [of U x] slugify_symbols [of U x]
  by (simp add: slug_shape_def slug_char_def)

theorem slugify_total_witness:
  "unicode_ok unicode_sample
   \<and> slugify unicode_sample (asc '' !? * '') = asc ''logo''
   \<and> slugify unicode_sample [] = asc ''logo''
   \<and> hd (slugify unicode_sample (asc '' !? * '')) \<noteq> dash"
  using slugify_total [of unicode_sample "asc '' !? * ''"] slugify_total [of unicode_sample "[]"]
    unicode_sample_ok
  by (simp add: slugify_punctuation)

section \<open>Properties of request_image\<close>

lemma asc_Nil [simp]: "asc [] = []" by (simp add: asc_def)

lemma json_dumps_empty: "json_dumps (JObj []) = asc ''{}''"
  by (simp add: asc_def)

lemma payload_fields_empty: "payload_fields (JObj []) = Inr (JNull, JNull)"
  by (simp add: payload_fields_def)

lemma unexpected_empty:
  "unexpected_response (JObj []) = RuntimeError (asc ''Unexpected response: {}'') None"
  by (simp add: unexpected_response_def asc_def)

lemma request_image_empty:
  assumes "urlopen_post W n (asc ''Bearer '' @ api_key) (request_body prompt model size' quality style) = Inr (JObj [])"
  shows "request_image W n api_key prompt model size' quality style
           = Inl (RuntimeError (asc ''Unexpected response: {}'') None)"
    and "request_image2 W n api_key prompt model size' quality style
           = Inl (RuntimeError (asc ''Unexpected response: {}'') None)"
  using assms
  by (simp_all add: request_image_def request_image2_def post_images_def payload_fields_empty
      unexpected_empty)

lemma sample_world_post: "urlopen_post (sample_world response fs0) n auth body = Inr response"
  by (simp add: sample_world_def)

lemma sample_prompts_file: "prompts_file (sample_world response fs0) = Inr sample_prompts"
  by (simp add: sample_world_def)

text \<open>
  C6: when the vendor answers the empty JSON object \<open>{}\<close>, the image request raises a
  \<open>RuntimeError\<close> whose message is \<open>Unexpected response: \<close> followed by the first 500 code
  points of the payload's JSON text (here \<open>{}\<close>), and the loop stops at that record with
  the file system as it was: no image file is written for it. In \<open>generate2.py\<close> the
  request is made only when no non-empty file is already there.
\<close>

theorem empty_response_protocol_error:
  assumes "urlopen_post W (length (requested s)) (asc ''Bearer '' @ api_key)
             (request_body (p_prompt p) default_model default_size default_quality default_style)
           = Inr (JObj [])"
  shows "request_image W (length (requested s)) api_key (p_prompt p)
           default_model default_size default_quality default_style
         = Inl (RuntimeError (asc ''Unexpected response: {}'') None)
       \<and> request_image2 W (length (requested s)) api_key (p_prompt p)
           default_model default_size default_quality default_style
         = Inl (RuntimeError (asc ''Unexpected response: {}'') None)
       \<and> generate_all U W api_key out_dir (p # ps) items_out s
         = (Inl (RuntimeError (asc ''Unexpected response: {}'') None),
            s\<lparr>requested := requested s @ [p_prompt p]\<rparr>)
       \<and> fs (snd (generate_all U W api_key out_dir (p # ps) items_out s)) = fs s
       \<and> (\<not> present (fs s) (out_dir, fname 70 U p) \<longrightarrow>
            generate_all2 U W api_key out_dir (p # ps) items_out s
            = (Inl (RuntimeError (asc ''Unexpected response: {}'') None),
               s\<lparr>requested := requested s @ [p_prompt p]\<rparr>)
          \<and> fs (snd (generate_all2 U W api_key out_dir (p # ps) items_out s)) = fs s)"
  using request_image_empty [OF assms] by simp

theorem empty_response_protocol_error_witness:
  "request_image (sample_world (JObj []) Map.empty) 0 (asc ''sk-test'') (asc ''a bold letter T'')
     default_model default_size default_quality default_style
   = Inl (RuntimeError (asc ''Unexpected response: {}'') None)
   \<and> fs (snd (generate_all unicode_sample (sample_world (JObj []) Map.empty) (asc ''sk-test'')
                (asc ''out/run1'') sample_prompts []
                \<lparr>fs = Map.empty, requested = [], stderr = []\<rparr>)) = Map.empty"
  using empty_response_protocol_error
    [of "sample_world (JObj []) Map.empty" "\<lparr>fs = Map.empty, requested = [], stderr = []\<rparr>"
        "asc ''sk-test''" "hd sample_prompts" unicode_sample "asc ''out/run1''" "tl sample_prompts" "[]",
     OF sample_world_post]
  by (simp add: sample_prompts_def)

lemma payload_fields_empty_list:
  "map_of kvs (asc ''data'') = Some (JArr []) \<Longrightarrow> payload_fields (JObj kvs) = Inl IndexError"
  by (simp add: payload_fields_def)

lemma payload_fields_Inr:
  assumes "payload_fields payload = Inr (b64, url)"
  shows "\<exists>kvs d. payload = JObj kvs
           \<and> (map_of kvs (asc ''data'') = None \<and> d = []
               \<or> (\<exists>rest. map_of kvs (asc ''data'') = Some (JArr (JObj d # rest))))
           \<and> b64 = (case map_of d (asc ''b64_json'') of None \<Rightarrow> JNull | Some v \<Rightarrow> v)
           \<and> url = (case map_of d (asc ''url'') of None \<Rightarrow> JNull | Some v \<Rightarrow> v)"
proof -
  from assms obtain kvs where p: "payload = JObj kvs"
    by (cases payload) (simp_all add: payload_fields_def)
  let ?lst = "case map_of kvs (asc ''data'') of None \<Rightarrow> JArr [JObj []] | Some v \<Rightarrow> v"
  from assms p obtain data where s0: "subscript0 ?lst = Inr data"
    by (cases "subscript0 ?lst") (simp_all add: payload_fields_def)
  from assms p s0 obtain d where d: "data = JObj d"
    by (cases data) (simp_all add: payload_fields_def)
  have shape: "map_of kvs (asc ''data'') = None \<and> d = []
      \<or> (\<exists>rest. map_of kvs (asc ''data'') = Some (JArr (JObj d # rest)))"
  proof (cases "map_of kvs (asc ''data'')")
    case None
    with s0 d show ?thesis by simp
  next
    case (Some v)
    with s0 d have "subscript0 v = Inr (JObj d)" by simp
    then have "\<exists>rest. v = JArr (JObj d # rest)"
      by (cases v rule: subscript0.cases) simp_all
    with Some show ?thesis by simp
  qed
  from assms p s0 d have "b64 = (case map_of d (asc ''b64_json'') of None \<Rightarrow> JNull | Some v \<Rightarrow> v)"
    and "url = (case map_of d (asc ''url'') of None \<Rightarrow> JNull | Some v \<Rightarrow> v)"
    by (simp_all add: payload_fields_def)
  with p shape show ?thesis by blast
qed

lemma lift_lib_not_runtime: "lift_lib r \<noteq> Inl (RuntimeError m c)"
  by (cases r) (simp_all add: lift_lib_def)

lemma payload_fields_not_runtime: "payload_fields payload \<noteq> Inl (RuntimeError m c)"
proof
  assume a: "payload_fields payload = Inl (RuntimeError m c)"
  have g: "json_get j k d \<noteq> Inl (RuntimeError m c)" for j k d
    by (cases j) simp_all
  have s: "subscript0 j \<noteq> Inl (RuntimeError m c)" for j
    by (cases j rule: subscript0.cases) simp_all
  from a g s show False
    by (auto simp: payload_fields_def split: sum.splits)
qed

lemma protocol_error_reached:
  assumes post: "urlopen_post W n (asc ''Bearer '' @ api_key)
                   (request_body prompt model size' quality style) = Inr payload"
    and err: "request_image W n api_key prompt model size' quality style = Inl (RuntimeError m None)
            \<or> request_image2 W n api_key prompt model size' quality style = Inl (RuntimeError m None)"
  shows "\<exists>b64 url. payload_fields payload = Inr (b64, url) \<and> \<not> truthy b64 \<and> \<not> truthy url
           \<and> m = asc ''Unexpected response: '' @ take 500 (json_dumps payload)"
proof (cases "payload_fields payload")
  case (Inl e)
  with post err payload_fields_not_runtime [of payload m None] show ?thesis
    by (auto simp: request_image_def request_image2_def post_images_def)
next
  case (Inr f)
  obtain b64 url where f: "f = (b64, url)" by (cases f)
  from post err Inr f lift_lib_not_runtime show ?thesis
    by (auto simp: request_image_def request_image2_def post_images_def unexpected_response_def
        split: if_splits sum.splits)
qed

text \<open>
  C9: for a response whose \<open>data\<close> key maps to an empty list, the image request of either
  script fails with \<open>IndexError\<close> (indexing the empty list), not with the protocol error.
  The protocol error (the only \<open>RuntimeError\<close> raised without a cause) is reached only
  when the payload is a dict whose \<open>data\<close> key is absent, or maps to a list whose first
  element is a dict, and that dict has nothing usable under \<open>b64_json\<close> and under \<open>url\<close>;
  its message then carries the payload preview.
\<close>

theorem empty_data_list_index_error:
  assumes post: "urlopen_post W n (asc ''Bearer '' @ api_key)
                   (request_body prompt model size' quality style) = Inr payload"
  shows "((\<exists>kvs. payload = JObj kvs \<and> map_of kvs (asc ''data'') = Some (JArr [])) \<longrightarrow>
            request_image W n api_key prompt model size' quality style = Inl IndexError
          \<and> request_image2 W n api_key prompt model size' quality style = Inl IndexError)
       \<and> (request_image W n api_key prompt model size' quality style = Inl (RuntimeError m None)
          \<or> request_image2 W n api_key prompt model size' quality style = Inl (RuntimeError m None) \<longrightarrow>
            (\<exists>kvs d. payload = JObj kvs
               \<and> (map_of kvs (asc ''data'') = None \<and> d = []
                   \<or> (\<exists>rest. map_of kvs (asc ''data'') = Some (JArr (JObj d # rest))))
               \<and> lacks d (asc ''b64_json'') \<and> lacks d (asc ''url'')
               \<and> m = asc ''Unexpected response: '' @ take 500 (json_dumps payload)))"
proof (intro conjI impI)
  assume "\<exists>kvs. payload = JObj kvs \<and> map_of kvs (asc ''data'') = Some (JArr [])"
  then have pf: "payload_fields payload = Inl IndexError"
    by (auto simp: payload_fields_empty_list)
  with post show "request_image W n api_key prompt model size' quality style = Inl IndexError"
    by (simp add: request_image_def post_images_def)
  from pf post show "request_image2 W n api_key prompt model size' quality style = Inl IndexError"
    by (simp add: request_image2_def post_images_def)
next
  assume "request_image W n api_key prompt model size' quality style = Inl (RuntimeError m None)
        \<or> request_image2 W n api_key prompt model size' quality style = Inl (RuntimeError m None)"
  from protocol_error_reached [OF post this] obtain b64 url where
    pf: "payload_fields payload = Inr (b64, url)" and f: "\<not> truthy b64" "\<not> truthy url"
    and m: "m = asc ''Unexpected response: '' @ take 500 (json_dumps payload)" by blast
  from payload_fields_Inr [OF pf] f m
  show "\<exists>kvs d. payload = JObj kvs
               \<and> (map_of kvs (asc ''data'') = None \<and> d = []
                   \<or> (\<exists>rest. map_of kvs (asc ''data'') = Some (JArr (JObj d # rest))))
               \<and> lacks d (asc ''b64_json'') \<and> lacks d (asc ''url'')
               \<and> m = asc ''Unexpected response: '' @ take 500 (json_dumps payload)"
    unfolding lacks_def by blast
qed

theorem empty_data_list_index_error_witness:
  "request_image (sample_world empty_data_response Map.empty) 0 (asc ''sk-test'') (asc ''a flask'')
     default_model default_size default_quality default_style = Inl IndexError
   \<and> request_image2 (sample_world empty_data_response Map.empty) 0 (asc ''sk-test'') (asc ''a flask'')
     default_model default_size default_quality default_style = Inl IndexError
   \<and> request_image (sample_world (JObj []) Map.empty) 0 (asc ''sk-test'') (asc ''a flask'')
     default_model default_size default_quality default_style
     = Inl (RuntimeError (asc ''Unexpected response: {}'') None)
   \<and> lacks [] (asc ''url'')"
  using empty_data_list_index_error [OF sample_world_post,
      of empty_data_response Map.empty 0 "asc ''sk-test''" "asc ''a flask''"
         default_model default_size default_quality default_style]
    empty_data_list_index_error [OF sample_world_post,
      of "JObj []" Map.empty 0 "asc ''sk-test''" "asc ''a flask''"
         default_model default_size default_quality default_style "asc ''Unexpected response: {}''"]
    request_image_empty(1) [OF sample_world_post]
  by (simp add: empty_data_response_def lacks_def)

section \<open>The retrieval fetch\<close>

text \<open>
  C5: when the payload gives a retrieval URL and no inline data, and fetching the URL
  fails with a \<open>URLError\<close>, \<open>generate.py\<close> raises a \<open>RuntimeError\<close> that wraps it
  (\<open>Failed to download image: ...\<close>, with the \<open>URLError\<close> as its cause), whereas
  \<open>generate2.py\<close>, which has no handler there, lets the bare \<open>URLError\<close> through.
\<close>

theorem url_fetch_failure:
  assumes post: "urlopen_post W n (asc ''Bearer '' @ api_key)
                   (request_body prompt model size' quality style) = Inr payload"
    and fields: "payload_fields payload = Inr (b64, url)"
    and no_b64: "\<not> truthy b64" and has_url: "truthy url"
    and fetch: "urlopen_get W n url = Inl e" and net: "is_URLError e"
  shows "request_image W n api_key prompt model size' quality style
           = Inl (RuntimeError (asc ''Failed to download image: '' @ str_URLError e) (Some e))
       \<and> request_image2 W n api_key prompt model size' quality style = Inl (Lib e)"
  using assms
  by (simp add: request_image_def request_image2_def post_images_def lift_lib_def)

lemma url_payload_fields:
  "payload_fields url_response = Inr (JNull, JStr (asc ''https://x/y.png''))"
  by (simp add: payload_fields_def url_response_def asc_def)

lemma sample_world_get:
  "urlopen_get (sample_world response fs0) n url = Inl (URLError (asc ''timed out''))"
  by (simp add: sample_world_def)

theorem url_fetch_failure_witness:
  "request_image (sample_world url_response Map.empty) 0 (asc ''sk-test'') (asc ''a flask'')
     default_model default_size default_quality default_style
   = Inl (RuntimeError (asc ''Failed to download image: <urlopen error timed out>'')
            (Some (URLError (asc ''timed out''))))
   \<and> request_image2 (sample_world url_response Map.empty) 0 (asc ''sk-test'') (asc ''a flask'')
     default_model default_size default_quality default_style
   = Inl (Lib (URLError (asc ''timed out'')))"
proof -
  let ?W = "sample_world url_response Map.empty"
  have post: "urlopen_post ?W 0 (asc ''Bearer '' @ asc ''sk-test'')
                (request_body (asc ''a flask'') default_model default_size default_quality default_style)
              = Inr url_response"
    by (rule sample_world_post)
  have fetch: "urlopen_get ?W 0 (JStr (asc ''https://x/y.png'')) = Inl (URLError (asc ''timed out''))"
    by (rule sample_world_get)
  have t: "\<not> truthy JNull" "truthy (JStr (asc ''https://x/y.png''))"
    "is_URLError (URLError (asc ''timed out''))"
    by (simp_all add: asc_def)
  from url_fetch_failure [OF post url_payload_fields t(1,2) fetch t(3)]
  show ?thesis by (simp add: asc_def)
qed

section \<open>Exit codes\<close>

lemma generate_all_succeeds:
  "all_requests_succeed Generate W k ps \<Longrightarrow> \<exists>items' s'. generate_all U W k dir ps items s = (Inr items', s')"
proof (induction ps arbitrary: items s)
  case Nil
  then show ?case by simp
next
  case (Cons p ps)
  from Cons.prems have rest: "all_requests_succeed Generate W k ps"
    by (simp add: all_requests_succeed_def)
  from Cons.prems obtain img where
    "request_image W (length (requested s)) k (p_prompt p)
       default_model default_size default_quality default_style = Inr img"
    unfolding all_requests_succeed_def by fastforce
  with Cons.IH [OF rest] show ?case by simp
qed

lemma generate_all2_succeeds:
  "all_requests_succeed Generate2 W k ps \<Longrightarrow> \<exists>items' s'. generate_all2 U W k dir ps items s = (Inr items', s')"
proof (induction ps arbitrary: items s)
  case Nil
  then show ?case by simp
next
  case (Cons p ps)
  from Cons.prems have rest: "all_requests_succeed Generate2 W k ps"
    by (simp add: all_requests_succeed_def)
  from Cons.prems obtain img where
    "request_image2 W (length (requested s)) k (p_prompt p)
       default_model default_size default_quality default_style = Inr img"
    unfolding all_requests_succeed_def by fastforce
  with Cons.IH [OF rest] show ?case by simp
qed

lemma run_no_key:
  assumes "py_strip U (environ_get W (asc ''OPENAI_API_KEY'') []) = []"
  shows "run sc U W = (Exit 2, \<lparr>fs = files W, requested = [], stderr = [asc ''Missing OPENAI_API_KEY'']\<rparr>)"
  using assms by (cases sc) (simp_all add: main_def main2_def)

lemma run_outcome:
  assumes "py_strip U (environ_get W (asc ''OPENAI_API_KEY'') []) \<noteq> []"
  shows "fst (run sc U W) = Exit 0 \<or> (\<exists>e. fst (run sc U W) = Raised e)"
  using assms
  by (cases sc) (auto simp: main_def main2_def Let_def split: sum.splits prod.splits)

lemma run_succeeds:
  assumes key: "py_strip U (environ_get W (asc ''OPENAI_API_KEY'') []) \<noteq> []"
    and ps: "prompts_file W = Inr ps"
    and ok: "all_requests_succeed sc W (py_strip U (environ_get W (asc ''OPENAI_API_KEY'') [])) ps"
  shows "fst (run sc U W) = Exit 0"
proof (cases sc)
  case Generate
  with ok generate_all_succeeds obtain items' s' where
    "generate_all U W (py_strip U (environ_get W (asc ''OPENAI_API_KEY'') []))
       (asc ''out/'' @ now W) ps [] \<lparr>fs = files W, requested = [], stderr = []\<rparr> = (Inr items', s')"
    by blast
  with Generate key ps show ?thesis by (simp add: main_def Let_def)
next
  case Generate2
  with ok generate_all2_succeeds obtain items' s' where
    "generate_all2 U W (py_strip U (environ_get W (asc ''OPENAI_API_KEY'') []))
       (out_dir2 U W) ps [] \<lparr>fs = files W, requested = [], stderr = []\<rparr> = (Inr items', s')"
    by blast
  with Generate2 key ps show ?thesis by (simp add: main2_def Let_def)
qed

text \<open>
  C8: in both scripts, when the credential variable is absent or blank after trimming,
  the run prints \<open>Missing OPENAI_API_KEY\<close> to the error stream and exits with code 2,
  having made no request and written no file. With the credential present the run either
  exits with code 0 or ends in an exception, and it exits with code 0 when the prompt file
  loads and every image request succeeds.
\<close>

theorem credential_exit_codes:
  "(py_strip U (environ_get W (asc ''OPENAI_API_KEY'') []) = [] \<longrightarrow>
      run sc U W = (Exit 2, \<lparr>fs = files W, requested = [], stderr = [asc ''Missing OPENAI_API_KEY'']\<rparr>))
   \<and> (py_strip U (environ_get W (asc ''OPENAI_API_KEY'') []) \<noteq> [] \<longrightarrow>
        fst (run sc U W) = Exit 0 \<or> (\<exists>e. fst (run sc U W) = Raised e))
   \<and> (py_strip U (environ_get W (asc ''OPENAI_API_KEY'') []) \<noteq> []
        \<and> prompts_file W = Inr ps
        \<and> all_requests_succeed sc W (py_strip U (environ_get W (asc ''OPENAI_API_KEY'') [])) ps \<longrightarrow>
        fst (run sc U W) = Exit 0)"
  using run_no_key [of U W sc] run_outcome [of U W sc] run_succeeds [of U W ps sc] by blast

lemma sample_key: "py_strip unicode_sample (environ_get (sample_world response fs0) (asc ''OPENAI_API_KEY'') []) = asc ''sk-test''"
  by code_simp

lemma no_key_blank: "py_strip unicode_sample (environ_get no_key_world (asc ''OPENAI_API_KEY'') []) = []"
  by code_simp

lemma b64_payload_fields:
  "payload_fields b64_response = Inr (JStr (asc ''iVBORw==''), JNull)"
  by (simp add: payload_fields_def b64_response_def asc_def)

lemma sample_requests_succeed: "all_requests_succeed sc (sample_world b64_response fs0) k ps"
  by (cases sc)
    (simp_all add: all_requests_succeed_def request_image_def request_image2_def post_images_def
      sample_world_post b64_payload_fields asc_def, simp_all add: sample_world_def lift_lib_def)

lemma sample_key_nonblank:
  "py_strip unicode_sample (environ_get (sample_world response fs0) (asc ''OPENAI_API_KEY'') []) \<noteq> []"
  by (simp only: sample_key) (simp add: asc_def)

lemma sample_run_ok: "fst (run sc unicode_sample (sample_world b64_response fs0)) = Exit 0"
  by (rule run_succeeds [OF sample_key_nonblank sample_prompts_file sample_requests_succeed])

theorem credential_exit_codes_witness:
  "run Generate unicode_sample no_key_world
     = (Exit 2, \<lparr>fs = files no_key_world, requested = [], stderr = [asc ''Missing OPENAI_API_KEY'']\<rparr>)
   \<and> run Generate2 unicode_sample no_key_world
     = (Exit 2, \<lparr>fs = files no_key_world, requested = [], stderr = [asc ''Missing OPENAI_API_KEY'']\<rparr>)
   \<and> all_requests_succeed Generate2 (sample_world b64_response Map.empty) (asc ''sk-test'') sample_prompts
   \<and> fst (run Generate2 unicode_sample (sample_world b64_response Map.empty)) = Exit 0
   \<and> fst (run Generate unicode_sample (sample_world b64_response Map.empty)) = Exit 0"
  using credential_exit_codes [of unicode_sample no_key_world Generate]
    credential_exit_codes [of unicode_sample no_key_world Generate2]
    credential_exit_codes [of unicode_sample "sample_world b64_response Map.empty" Generate2 sample_prompts]
    credential_exit_codes [of unicode_sample "sample_world b64_response Map.empty" Generate sample_prompts]
    no_key_blank sample_key_nonblank [of b64_response Map.empty]
    sample_prompts_file [of b64_response Map.empty] sample_requests_succeed
  by simp

section \<open>Properties of the batch loop\<close>

lemma generate_all_items:
  "generate_all U W k dir ps items s = (Inr items', s') \<Longrightarrow>
     items' = items @ map (\<lambda>p. item p (fname 60 U p)) ps"
proof (induction ps arbitrary: items s)
  case Nil
  then show ?case by simp
next
  case (Cons p ps)
  from Cons.prems obtain img where
    "generate_all U W k dir ps (items @ [item p (fname 60 U p)])
       (write_file (dir, fname 60 U p) (Raw img) (s\<lparr>requested := requested s @ [p_prompt p]\<rparr>))
     = (Inr items', s')"
    by (auto split: sum.splits)
  from Cons.IH [OF this] show ?case by simp
qed

lemma generate_all2_items:
  "generate_all2 U W k dir ps items s = (Inr items', s') \<Longrightarrow>
     items' = items @ map (\<lambda>p. item p (fname 70 U p)) ps"
proof (induction ps arbitrary: items s)
  case Nil
  then show ?case by simp
next
  case (Cons p ps)
  from Cons.prems obtain s1 where
    "generate_all2 U W k dir ps (items @ [item p (fname 70 U p)]) s1 = (Inr items', s')"
    by (auto split: sum.splits if_splits)
  from Cons.IH [OF this] show ?case by simp
qed

lemma present_write_other:
  "path' \<noteq> path \<Longrightarrow> present (fs (write_file path c s)) path' = present (fs s) path'"
  by (simp add: present_def write_file_def)

lemma requested_write_file [simp]: "requested (write_file path c s) = requested s"
  by (simp add: write_file_def)

lemma generate_all2_requested:
  "distinct (map (fname 70 U) ps) \<Longrightarrow>
   generate_all2 U W k dir ps items s = (Inr items', s') \<Longrightarrow>
     requested s' =
       requested s @ map p_prompt (filter (\<lambda>p. \<not> present (fs s) (dir, fname 70 U p)) ps)"
proof (induction ps arbitrary: items s)
  case Nil
  then show ?case by simp
next
  case (Cons p ps)
  from Cons.prems(1) have d: "distinct (map (fname 70 U) ps)"
    and notin: "fname 70 U p \<notin> fname 70 U ` set ps" by simp_all
  from notin have fresh: "\<forall>q \<in> set ps. fname 70 U q \<noteq> fname 70 U p"
    by (metis imageI)
  show ?case
  proof (cases "present (fs s) (dir, fname 70 U p)")
    case True
    with Cons.prems(2) have "generate_all2 U W k dir ps (items @ [item p (fname 70 U p)]) s = (Inr items', s')"
      by simp
    from Cons.IH [OF d this] True show ?thesis by simp
  next
    case False
    let ?s1 = "s\<lparr>requested := requested s @ [p_prompt p]\<rparr>"
    from False Cons.prems(2) obtain img where
      run: "generate_all2 U W k dir ps (items @ [item p (fname 70 U p)])
              (write_file (dir, fname 70 U p) (Raw img) ?s1) = (Inr items', s')"
      by (auto split: sum.splits)
    let ?s2 = "write_file (dir, fname 70 U p) (Raw img) ?s1"
    have same: "filter (\<lambda>q. \<not> present (fs ?s2) (dir, fname 70 U q)) ps
              = filter (\<lambda>q. \<not> present (fs s) (dir, fname 70 U q)) ps"
      using fresh by (intro filter_cong refl) (simp add: present_def write_file_def)
    from Cons.IH [OF d run] same False show ?thesis by simp
  qed
qed

lemma index_not_manifest:
  "asc ''index.html'' \<noteq> asc ''generated.json''" "asc ''generated.json'' \<noteq> asc ''index.html''"
  by (simp_all add: asc_def)

lemma manifest_after_write:
  "manifest dir (write_file (dir, asc ''index.html'') c
                   (write_file (dir, asc ''generated.json'') (Manifest items) s)) = Some items"
  by (simp add: manifest_def write_file_def index_not_manifest)

lemma main_manifest:
  assumes "fst (main U W) = Exit 0" and "prompts_file W = Inr ps"
  shows "manifest (asc ''out/'' @ now W) (snd (main U W)) = Some (map (\<lambda>p. item p (fname 60 U p)) ps)"
  using assms
  by (auto simp: main_def Let_def write_gallery_def manifest_after_write
      split: if_splits sum.splits prod.splits dest!: generate_all_items)

lemma main2_manifest:
  assumes "fst (main2 U W) = Exit 0" and "prompts_file W = Inr ps"
  shows "manifest (out_dir2 U W) (snd (main2 U W)) = Some (map (\<lambda>p. item p (fname 70 U p)) ps)"
  using assms
  by (auto simp: main2_def Let_def write_gallery2_def manifest_after_write
      split: if_splits sum.splits prod.splits dest!: generate_all2_items)

lemma run_manifest:
  assumes "fst (run sc U W) = Exit 0" and "prompts_file W = Inr ps"
  shows "manifest (out_dir_of sc U W) (snd (run sc U W))
           = Some (map (\<lambda>p. item p (fname (slug_limit sc) U p)) ps)"
  using assms by (cases sc) (simp_all add: main_manifest main2_manifest)

lemma main2_requested:
  assumes "fst (main2 U W) = Exit 0" and "prompts_file W = Inr ps"
    and "distinct (map (fname 70 U) ps)"
  shows "requested (snd (main2 U W))
           = map p_prompt (filter (\<lambda>p. \<not> present (files W) (out_dir2 U W, fname 70 U p)) ps)"
  using assms
  by (auto simp: main2_def Let_def write_gallery2_def write_file_def
      split: if_splits sum.splits prod.splits dest!: generate_all2_requested)

text \<open>
  C1, as the code has it: for a prompt list of size \<open>N\<close> whose target file names are
  pairwise distinct, and an output directory holding non-empty files at \<open>K\<close> of the
  target paths, a run of \<open>generate2.py\<close> that completes has called the image request
  exactly \<open>N - K\<close> times, once per record whose file was missing or empty, in the order
  of the records, and the manifest holds \<open>N\<close> entries, one per record, in the order of the
  input file.
\<close>

theorem resume_requests_and_manifest:
  assumes "fst (main2 U W) = Exit 0" and "prompts_file W = Inr ps"
    and "distinct (map (fname 70 U) ps)"
  shows "length (requested (snd (main2 U W)))
           = length ps - length (filter (\<lambda>p. present (files W) (out_dir2 U W, fname 70 U p)) ps)
       \<and> requested (snd (main2 U W))
           = map p_prompt (filter (\<lambda>p. \<not> present (files W) (out_dir2 U W, fname 70 U p)) ps)
       \<and> manifest (out_dir2 U W) (snd (main2 U W)) = Some (map (\<lambda>p. item p (fname 70 U p)) ps)"
proof -
  let ?P = "\<lambda>p. present (files W) (out_dir2 U W, fname 70 U p)"
  have r: "requested (snd (main2 U W)) = map p_prompt (filter (\<lambda>p. \<not> ?P p) ps)"
    using assms by (rule main2_requested)
  have "length (filter ?P ps) + length (filter (\<lambda>p. \<not> ?P p) ps) = length ps"
    by (rule sum_length_filter_compl)
  then have "length (filter (\<lambda>p. \<not> ?P p) ps) = length ps - length (filter ?P ps)"
    by arith
  with r main2_manifest [OF assms(1,2)] show ?thesis by simp
qed

lemma resume_run_ok: "fst (main2 unicode_sample (sample_world b64_response resume_files)) = Exit 0"
  using sample_run_ok [of Generate2 resume_files] by simp

lemma resume_names_distinct: "distinct (map (fname 70 unicode_sample) sample_prompts)"
  by code_simp

lemma resume_count:
  "length sample_prompts
     - length (filter (\<lambda>p. present (files (sample_world b64_response resume_files))
                              (out_dir2 unicode_sample (sample_world b64_response resume_files),
                               fname 70 unicode_sample p)) sample_prompts) = 1"
  by code_simp

theorem resume_requests_and_manifest_witness:
  "fst (main2 unicode_sample (sample_world b64_response resume_files)) = Exit 0
   \<and> distinct (map (fname 70 unicode_sample) sample_prompts)
   \<and> length (requested (snd (main2 unicode_sample (sample_world b64_response resume_files)))) = 1"
proof -
  have "length (requested (snd (main2 unicode_sample (sample_world b64_response resume_files)))) = 1"
    using resume_requests_and_manifest
      [OF resume_run_ok sample_prompts_file resume_names_distinct, THEN conjunct1]
    by (rule trans) (rule resume_count)
  with resume_run_ok resume_names_distinct show ?thesis by (intro conjI)
qed

text \<open>
  C1 as stated fails when two records share a target file name: the second record finds
  the file the first one wrote and is skipped. Two records, no file in the directory
  (\<open>N = 2\<close>, \<open>K = 0\<close>), and one image request.
\<close>

theorem resume_duplicate_targets_counterexample:
  "fst (main2 unicode_sample dup_world) = Exit 0
   \<and> prompts_file dup_world = Inr dup_prompts
   \<and> length dup_prompts = 2
   \<and> \<not> present (files dup_world) (out_dir2 unicode_sample dup_world, fname 70 unicode_sample (dup_prompts ! 0))
   \<and> \<not> present (files dup_world) (out_dir2 unicode_sample dup_world, fname 70 unicode_sample (dup_prompts ! 1))
   \<and> length (requested (snd (main2 unicode_sample dup_world))) = 1"
  by code_simp

section \<open>File names\<close>

text \<open>
  The format \<open>02d\<close> gives the zero-padded form of every integer, and no other string is
  a zero-padded form of it.
\<close>

declare digits.simps [simp del]

lemma digits_range: "c \<in> set (digits n) \<Longrightarrow> 48 \<le> c \<and> c \<le> 57"
proof (induction n arbitrary: c rule: digits.induct)
  case (1 n)
  show ?case
  proof (cases "n < 10")
    case True
    with "1.prems" show ?thesis by (simp add: digits.simps [of n])
  next
    case False
    with "1.prems" have "c \<in> set (digits (n div 10)) \<or> c = 48 + n mod 10"
      by (auto simp: digits.simps [of n])
    with "1.IH" [OF False] show ?thesis by auto
  qed
qed

lemma digits_small: "n < 10 \<Longrightarrow> digits n = [48 + n]"
  by (simp add: digits.simps [of n])

lemma digits_large: "\<not> n < 10 \<Longrightarrow> digits n = digits (n div 10) @ [48 + n mod 10]"
  by (simp add: digits.simps [of n])

lemma digits_nonempty: "digits n \<noteq> []"
  by (cases "n < 10") (simp_all add: digits_small digits_large)

lemma decimal_value_snoc: "decimal_value (s @ [c]) = 10 * decimal_value s + (c - 48)"
  by (simp add: decimal_value_def)

lemma decimal_value_digits: "decimal_value (digits n) = n"
proof (induction n rule: digits.induct)
  case (1 n)
  show ?case
  proof (cases "n < 10")
    case True
    then show ?thesis by (simp add: digits_small decimal_value_def)
  next
    case False
    with "1.IH" show ?thesis by (simp add: digits_large decimal_value_snoc)
  qed
qed

lemma decimal_value_zeros: "decimal_value (replicate k 48 @ s) = decimal_value s"
proof -
  have "foldl (\<lambda>a c. 10 * a + (c - 48)) 0 (replicate k (48::nat)) = 0"
    by (induction k) simp_all
  then show ?thesis by (simp add: decimal_value_def)
qed

lemma hd_digits: "0 < n \<Longrightarrow> hd (digits n) \<noteq> 48"
proof (induction n rule: digits.induct)
  case (1 n)
  show ?case
  proof (cases "n < 10")
    case True
    with "1.prems" show ?thesis by (simp add: digits_small)
  next
    case False
    then have "0 < n div 10" by simp
    with "1.IH" [OF False] have "hd (digits (n div 10)) \<noteq> 48" by simp
    with False show ?thesis by (simp add: digits_large digits_nonempty)
  qed
qed

lemma decimal_of_digits: "0 < n \<Longrightarrow> decimal_of 1 n (digits n)"
  using digits_nonempty [of n] digits_range [of _ n]
  by (auto simp: decimal_of_def decimal_value_digits hd_digits Suc_le_eq)

lemma zero_padded_fmt_02d: "zero_padded n (fmt_02d n)"
proof (cases "n < 0")
  case True
  then have pos: "0 < nat (- n)" by simp
  from digits_nonempty [of "nat (- n)"] have "1 - length (digits (nat (- n))) = 0"
    by (cases "digits (nat (- n))") simp_all
  with True have "fmt_02d n = dash # digits (nat (- n))"
    by (simp add: fmt_02d_def)
  with True decimal_of_digits [OF pos] show ?thesis
    by (simp add: zero_padded_def)
next
  case False
  let ?d = "digits (nat n)"
  from False have f: "fmt_02d n = replicate (2 - length ?d) 48 @ ?d"
    by (simp add: fmt_02d_def)
  have range: "\<forall>c \<in> set (fmt_02d n). 48 \<le> c \<and> c \<le> 57"
    unfolding f using digits_range [of _ "nat n"] by auto
  have val: "decimal_value (fmt_02d n) = nat n"
    unfolding f by (simp add: decimal_value_zeros decimal_value_digits)
  have len: "2 \<le> length (fmt_02d n)"
    unfolding f by simp
  have lead: "hd (fmt_02d n) \<noteq> 48" if "2 < length (fmt_02d n)"
  proof -
    from that have l: "2 < length ?d" unfolding f by (cases "length ?d < 2") simp_all
    then have "\<not> nat n < 10" by (auto simp: digits_small)
    then have "0 < nat n" by simp
    then have "hd ?d \<noteq> 48" by (rule hd_digits)
    with l show ?thesis unfolding f by simp
  qed
  from False range val len lead show ?thesis
    by (simp add: zero_padded_def decimal_of_def)
qed

lemma decimal_value_inj:
  assumes "length s = length t"
    and "\<forall>c \<in> set s. 48 \<le> c \<and> c \<le> 57" and "\<forall>c \<in> set t. 48 \<le> c \<and> c \<le> 57"
    and "decimal_value s = decimal_value t"
  shows "s = t"
  using assms
proof (induction s arbitrary: t rule: rev_induct)
  case Nil
  then show ?case by simp
next
  case (snoc c s)
  from snoc.prems(1) obtain d t' where t: "t = t' @ [d]"
    by (cases t rule: rev_cases) simp_all
  from snoc.prems(2,3) t have r: "48 \<le> c" "c \<le> 57" "48 \<le> d" "d \<le> 57" by simp_all
  from snoc.prems(4) t
  have e: "10 * decimal_value s + (c - 48) = 10 * decimal_value t' + (d - 48)"
    by (simp add: decimal_value_snoc)
  from r e have v: "decimal_value s = decimal_value t'" and cd: "c = d" by arith+
  from snoc.prems(1,2,3) t have "s = t'"
    by (intro snoc.IH v) simp_all
  with cd t show ?case by simp
qed

lemma decimal_value_upper:
  "\<forall>c \<in> set s. 48 \<le> c \<and> c \<le> 57 \<Longrightarrow> decimal_value s < 10 ^ length s"
proof (induction s rule: rev_induct)
  case Nil
  then show ?case by (simp add: decimal_value_def)
next
  case (snoc c s)
  then have "decimal_value s < 10 ^ length s" and "c - 48 < 10" by auto
  then have "10 * decimal_value s + (c - 48) < 10 * 10 ^ length s" by arith
  then show ?case by (simp add: decimal_value_snoc)
qed

lemma decimal_value_lower:
  "\<forall>c \<in> set s. 48 \<le> c \<and> c \<le> 57 \<Longrightarrow> s \<noteq> [] \<Longrightarrow> hd s \<noteq> 48
     \<Longrightarrow> 10 ^ (length s - 1) \<le> decimal_value s"
proof (induction s rule: rev_induct)
  case Nil
  then show ?case by simp
next
  case (snoc c s)
  show ?case
  proof (cases "s = []")
    case True
    with snoc.prems have "48 < c" by auto
    with True show ?thesis by (simp add: decimal_value_def)
  next
    case False
    with snoc have "10 ^ (length s - 1) \<le> decimal_value s" by simp
    then have "10 * 10 ^ (length s - 1) \<le> 10 * decimal_value s + (c - 48)" by arith
    moreover from False have "10 * (10::nat) ^ (length s - 1) = 10 ^ length s"
      by (cases s) simp_all
    ultimately show ?thesis by (simp add: decimal_value_snoc)
  qed
qed

lemma decimal_of_length:
  assumes "decimal_of w n s" and "decimal_of w n t"
  shows "\<not> length s < length t"
proof
  assume l: "length s < length t"
  from assms(1) have "n < 10 ^ length s"
    using decimal_value_upper [of s] by (auto simp: decimal_of_def)
  also from l have "(10::nat) ^ length s \<le> 10 ^ (length t - 1)"
    by (intro power_increasing) simp_all
  also have "10 ^ (length t - 1) \<le> n"
  proof -
    from l have ne: "t \<noteq> []" by auto
    from assms l have "w < length t" by (simp add: decimal_of_def)
    with assms(2) have "hd t \<noteq> 48" and "\<forall>c \<in> set t. 48 \<le> c \<and> c \<le> 57"
      and "decimal_value t = n"
      by (simp_all add: decimal_of_def)
    with ne decimal_value_lower [of t] show ?thesis by simp
  qed
  finally show False by simp
qed

lemma decimal_of_unique:
  assumes "decimal_of w n s" and "decimal_of w n t"
  shows "s = t"
proof -
  from decimal_of_length [OF assms] decimal_of_length [OF assms(2,1)]
  have "length s = length t" by simp
  with assms show ?thesis
    by (intro decimal_value_inj) (simp_all add: decimal_of_def)
qed

lemma zero_padded_unique:
  assumes "zero_padded n s" and "zero_padded n t"
  shows "s = t"
proof (cases "n < 0")
  case True
  with assms have "tl s = tl t" and "s \<noteq> []" "t \<noteq> []" "hd s = hd t"
    by (auto simp: zero_padded_def intro: decimal_of_unique)
  then show ?thesis by (cases s; cases t) simp_all
next
  case False
  with assms show ?thesis
    by (auto simp: zero_padded_def intro: decimal_of_unique)
qed

lemma zero_padded_iff: "zero_padded n s \<longleftrightarrow> s = fmt_02d n"
  using zero_padded_unique [of n s "fmt_02d n"] zero_padded_fmt_02d [of n] by auto

lemma fname_same:
  assumes "map (\<lambda>p. (p_id p, p_title p)) ps = map (\<lambda>p. (p_id p, p_title p)) ps'"
  shows "map (fname l U) ps = map (fname l U) ps'"
proof -
  let ?g = "\<lambda>k. fmt_02d (fst k) @ asc ''-'' @ take l (slugify U (snd k)) @ asc ''.png''"
  have g: "fname l U = ?g \<circ> (\<lambda>p. (p_id p, p_title p))"
    by (rule ext) (simp add: fname_def)
  have "map (fname l U) qs = map ?g (map (\<lambda>p. (p_id p, p_title p)) qs)" for qs
    by (simp only: g map_map)
  with assms show ?thesis by (simp only:)
qed

lemma it_file_item: "map it_file (map (\<lambda>p. item p (fname l U p)) ps) = map (fname l U) ps"
  by (simp add: item_def)

lemma fname_padded:
  "list_all2 (\<lambda>it p. \<exists>z. zero_padded (p_id p) z
                     \<and> it_file it = z @ asc ''-'' @ take l (slugify U (p_title p)) @ asc ''.png'')
     (map (\<lambda>p. item p (fname l U p)) ps) ps"
proof -
  have "\<exists>z. zero_padded (p_id p) z
           \<and> it_file (item p (fname l U p)) = z @ asc ''-'' @ take l (slugify U (p_title p)) @ asc ''.png''"
    for p
    using zero_padded_fmt_02d [of "p_id p"] by (auto simp: item_def fname_def)
  then show ?thesis
    by (simp add: list_all2_map1 list_all2_same)
qed

text \<open>
  C4: for two completed runs of the same script over prompt records with the same ids and
  titles (whatever else differs: prompts, files, vendor answers, time stamp), the \<open>file\<close>
  fields of the two manifests are identical, and each is the zero-padded id, a dash, the
  slug of the title cut to the script's limit (60 or 70), and \<open>.png\<close>. The zero-padded
  id is given twice: as what the format \<open>02d\<close> makes of the id, and as the one string
  that \<open>zero_padded\<close> allows for it.
\<close>

theorem manifest_file_deterministic:
  assumes "fst (run sc U W) = Exit 0" and "fst (run sc U W') = Exit 0"
    and "prompts_file W = Inr ps" and "prompts_file W' = Inr ps'"
    and "map (\<lambda>p. (p_id p, p_title p)) ps = map (\<lambda>p. (p_id p, p_title p)) ps'"
  shows "\<exists>items items'.
           manifest (out_dir_of sc U W) (snd (run sc U W)) = Some items
         \<and> manifest (out_dir_of sc U W') (snd (run sc U W')) = Some items'
         \<and> map it_file items = map it_file items'
         \<and> map it_file items
             = map (\<lambda>p. fmt_02d (p_id p) @ asc ''-'' @ take (slug_limit sc) (slugify U (p_title p))
                          @ asc ''.png'') ps
         \<and> list_all2 (\<lambda>it p. \<exists>z. zero_padded (p_id p) z
                          \<and> it_file it = z @ asc ''-'' @ take (slug_limit sc) (slugify U (p_title p))
                                           @ asc ''.png'')
             items ps"
proof -
  let ?l = "slug_limit sc"
  have m: "manifest (out_dir_of sc U W) (snd (run sc U W)) = Some (map (\<lambda>p. item p (fname ?l U p)) ps)"
    using assms(1,3) by (rule run_manifest)
  have m': "manifest (out_dir_of sc U W') (snd (run sc U W')) = Some (map (\<lambda>p. item p (fname ?l U p)) ps')"
    using assms(2,4) by (rule run_manifest)
  have same: "map it_file (map (\<lambda>p. item p (fname ?l U p)) ps)
            = map it_file (map (\<lambda>p. item p (fname ?l U p)) ps')"
    using fname_same [OF assms(5)] by (simp only: it_file_item)
  have shape: "map it_file (map (\<lambda>p. item p (fname ?l U p)) ps)
             = map (\<lambda>p. fmt_02d (p_id p) @ asc ''-'' @ take ?l (slugify U (p_title p)) @ asc ''.png'') ps"
    by (simp add: item_def fname_def)
  from m m' same shape fname_padded [of ?l U ps] show ?thesis by blast
qed

lemma sample_names_60:
  "map (\<lambda>p. fmt_02d (p_id p) @ asc ''-'' @ take (slug_limit Generate) (slugify unicode_sample (p_title p))
               @ asc ''.png'') sample_prompts
     = [asc ''01-bold-t-mark.png'', asc ''12-alchemy-flask.png'']"
  by code_simp

lemma sample_names_70:
  "map (\<lambda>p. fmt_02d (p_id p) @ asc ''-'' @ take (slug_limit Generate2) (slugify unicode_sample (p_title p))
               @ asc ''.png'') sample_prompts
     = [asc ''01-bold-t-mark.png'', asc ''12-alchemy-flask.png'']"
  by code_simp

lemma sample_padded:
  "zero_padded 1 (asc ''01'') \<and> zero_padded 12 (asc ''12'')
   \<and> \<not> zero_padded 1 (asc ''1'') \<and> \<not> zero_padded 1 (asc ''001'') \<and> \<not> zero_padded 12 (asc ''012'')
   \<and> zero_padded 123 (asc ''123'') \<and> zero_padded (- 5) (asc ''-5'') \<and> \<not> zero_padded (- 5) (asc ''-05'')"
  by code_simp

theorem manifest_file_deterministic_witness:
  "fst (run Generate unicode_sample (sample_world b64_response Map.empty)) = Exit 0
   \<and> fst (run Generate unicode_sample (sample_world b64_response resume_files)) = Exit 0
   \<and> fst (run Generate2 unicode_sample (sample_world b64_response Map.empty)) = Exit 0
   \<and> fst (run Generate2 unicode_sample (sample_world b64_response resume_files)) = Exit 0
   \<and> (\<exists>items items'.
         manifest (out_dir_of Generate unicode_sample (sample_world b64_response Map.empty))
           (snd (run Generate unicode_sample (sample_world b64_response Map.empty))) = Some items
       \<and> manifest (out_dir_of Generate unicode_sample (sample_world b64_response resume_files))
           (snd (run Generate unicode_sample (sample_world b64_response resume_files))) = Some items'
       \<and> map it_file items = map it_file items'
       \<and> map it_file items = [asc ''01-bold-t-mark.png'', asc ''12-alchemy-flask.png''])
   \<and> (\<exists>items items'.
         manifest (out_dir_of Generate2 unicode_sample (sample_world b64_response Map.empty))
           (snd (run Generate2 unicode_sample (sample_world b64_response Map.empty))) = Some items
       \<and> manifest (out_dir_of Generate2 unicode_sample (sample_world b64_response resume_files))
           (snd (run Generate2 unicode_sample (sample_world b64_response resume_files))) = Some items'
       \<and> map it_file items = map it_file items'
       \<and> map it_file items = [asc ''01-bold-t-mark.png'', asc ''12-alchemy-flask.png''])"
proof -
  note g = manifest_file_deterministic
      [OF sample_run_ok sample_run_ok sample_prompts_file sample_prompts_file refl,
       of Generate Map.empty resume_files, unfolded sample_names_60]
  note g2 = manifest_file_deterministic
      [OF sample_run_ok sample_run_ok sample_prompts_file sample_prompts_file refl,
       of Generate2 Map.empty resume_files, unfolded sample_names_70]
  from g have A: "\<exists>items items'.
         manifest (out_dir_of Generate unicode_sample (sample_world b64_response Map.empty))
           (snd (run Generate unicode_sample (sample_world b64_response Map.empty))) = Some items
       \<and> manifest (out_dir_of Generate unicode_sample (sample_world b64_response resume_files))
           (snd (run Generate unicode_sample (sample_world b64_response resume_files))) = Some items'
       \<and> map it_file items = map it_file items'
       \<and> map it_file items = [asc ''01-bold-t-mark.png'', asc ''12-alchemy-flask.png'']"
    by (elim exE conjE) (intro exI conjI, assumption+)
  from g2 have B: "\<exists>items items'.
         manifest (out_dir_of Generate2 unicode_sample (sample_world b64_response Map.empty))
           (snd (run Generate2 unicode_sample (sample_world b64_response Map.empty))) = Some items
       \<and> manifest (out_dir_of Generate2 unicode_sample (sample_world b64_response resume_files))
           (snd (run Generate2 unicode_sample (sample_world b64_response resume_files))) = Some items'
       \<and> map it_file items = map it_file items'
       \<and> map it_file items = [asc ''01-bold-t-mark.png'', asc ''12-alchemy-flask.png'']"
    by (elim exE conjE) (intro exI conjI, assumption+)
  from A B sample_run_ok [of Generate Map.empty] sample_run_ok [of Generate resume_files]
    sample_run_ok [of Generate2 Map.empty] sample_run_ok [of Generate2 resume_files]
  show ?thesis by (intro conjI)
qed

section \<open>Properties of write_gallery\<close>

text \<open>
  Where a string ends or another begins with a code point that the figure tag does not
  have inside, no figure tag spans the joint, and the occurrences add up.
\<close>

lemma occurrences_append_last:
  assumes "a \<noteq> []" and "last a \<notin> set (butlast p)"
  shows "occurrences p (a @ b) = occurrences p a + occurrences p b"
  using assms
proof (induction a)
  case Nil
  then show ?case by simp
next
  case (Cons c a)
  have pre: "prefix p (c # a @ b) \<longleftrightarrow> prefix p (c # a)"
  proof
    assume "prefix p (c # a @ b)"
    then have "prefix p ((c # a) @ b)" by simp
    then consider "prefix p (c # a)" | us where "p = (c # a) @ us" and "prefix us b"
      unfolding prefix_append by blast
    then show "prefix p (c # a)"
    proof cases
      case 1
      then show ?thesis .
    next
      case 2
      show ?thesis
      proof (cases "us = []")
        case True
        with 2 show ?thesis by simp
      next
        case False
        with 2 have "butlast p = (c # a) @ butlast us"
          by (simp add: butlast_append)
        then have "last (c # a) \<in> set (butlast p)"
          by (metis last_in_set list.distinct(1) set_append UnI1)
        with Cons.prems show ?thesis by simp
      qed
    qed
  next
    assume "prefix p (c # a)"
    then have "prefix p ((c # a) @ b)" by (rule prefix_prefix)
    then show "prefix p (c # a @ b)" by simp
  qed
  show ?case
  proof (cases "a = []")
    case True
    with pre show ?thesis by simp
  next
    case False
    with Cons have "occurrences p (a @ b) = occurrences p a + occurrences p b" by simp
    with pre show ?thesis by simp
  qed
qed

lemma occurrences_append_hd:
  assumes "b \<noteq> []" and "hd b \<notin> set (tl p)"
  shows "occurrences p (a @ b) = occurrences p a + occurrences p b"
proof (induction a)
  case Nil
  then show ?case by simp
next
  case (Cons c a)
  have pre: "prefix p (c # a @ b) \<longleftrightarrow> prefix p (c # a)"
  proof
    assume "prefix p (c # a @ b)"
    then have "prefix p ((c # a) @ b)" by simp
    then consider "prefix p (c # a)" | us where "p = (c # a) @ us" and "prefix us b"
      unfolding prefix_append by blast
    then show "prefix p (c # a)"
    proof cases
      case 1
      then show ?thesis .
    next
      case 2
      show ?thesis
      proof (cases "us = []")
        case True
        with 2 show ?thesis by simp
      next
        case False
        with 2(2) assms(1) have "hd us = hd b"
          by (cases us; cases b) auto
        moreover from 2(1) False have "hd us \<in> set (tl p)"
          by (cases us) auto
        ultimately show ?thesis using assms(2) by simp
      qed
    qed
  next
    assume "prefix p (c # a)"
    then have "prefix p ((c # a) @ b)" by (rule prefix_prefix)
    then show "prefix p (c # a @ b)" by simp
  qed
  with Cons show ?case by simp
qed

lemma occurrences_free: "p \<noteq> [] \<Longrightarrow> hd p \<notin> set a \<Longrightarrow> occurrences p a = 0"
  by (induction a) (auto simp: prefix_def Cons_eq_append_conv)

lemma figure_tag_code: "figure_tag = [60, 102, 105, 103, 117, 114, 101, 62]"
  by (simp add: figure_tag_def asc_def)

lemma occ_after_literal:
  "a \<noteq> [] \<Longrightarrow> last a \<notin> {60, 102, 105, 103, 117, 114, 101} \<Longrightarrow>
     occurrences figure_tag (a @ b) = occurrences figure_tag a + occurrences figure_tag b"
  by (rule occurrences_append_last) (simp_all add: figure_tag_code)

lemma occ_before_literal:
  "l \<noteq> [] \<Longrightarrow> hd l \<notin> {102, 105, 103, 117, 114, 101, 62} \<Longrightarrow>
     occurrences figure_tag (f @ l @ r) = occurrences figure_tag f + occurrences figure_tag (l @ r)"
  by (rule occurrences_append_hd) (simp_all add: figure_tag_code)

lemma occ_fmt_02d: "occurrences figure_tag (fmt_02d n) = 0"
proof -
  have "60 \<notin> set (fmt_02d n)"
    using digits_range [of 60] by (auto simp: fmt_02d_def dash_def)
  then show ?thesis by (intro occurrences_free) (simp_all add: figure_tag_code)
qed

lemma strip_where_mid:
  assumes "\<forall>c \<in> set pre. P c" and "\<forall>c \<in> set post. P c"
    and "mid \<noteq> []" and "\<not> P (hd mid)" and "\<not> P (last mid)"
  shows "strip_where P (pre @ mid @ post) = mid"
proof -
  from assms(3,4) have "dropWhile P (mid @ post) = mid @ post"
    by (cases mid) simp_all
  with assms(1) have 1: "dropWhile P (pre @ mid @ post) = mid @ post"
    by (simp add: dropWhile_append)
  from assms(5) have "\<not> P (hd (rev mid))" by (simp add: hd_rev)
  moreover from assms(3) have "rev mid \<noteq> []" by simp
  ultimately have "dropWhile P (rev mid) = rev mid" by (cases "rev mid") auto
  with assms(2) have "dropWhile P (rev (mid @ post)) = rev mid"
    by (simp add: dropWhile_append)
  with 1 show ?thesis by (simp add: strip_where_def)
qed

lemma newline_space: "\<forall>c \<in> set [10]. py_isspace U c"
  by (simp add: py_isspace_def)

lemma thumb_eq:
  \<open>thumb U it =
     asc ''<figure>
  <a href="''
      @ it_file it
      @ asc ''"><img src="''
      @ it_file it
      @ asc ''" loading="lazy" /></a>
  <figcaption><strong>''
      @ fmt_02d (it_id it)
      @ asc ''.</strong> ''
      @ it_title it
      @ asc ''<br/><small>''
      @ it_prompt it
      @ asc ''</small></figcaption>
</figure>''\<close>
  (is "_ = ?mid")
proof -
  have "thumb U it = strip_where (py_isspace U) ([10] @ ?mid @ [10])"
    by (simp add: thumb_def py_strip_def asc_def)
  also have "\<dots> = ?mid"
    by (rule strip_where_mid [OF newline_space newline_space])
      (simp_all add: asc_def py_isspace_def)
  finally show ?thesis .
qed

lemma thumb2_eq:
  \<open>thumb2 U it =
     asc ''<figure>
  <a href="''
      @ it_file it
      @ asc ''"><img src="''
      @ it_file it
      @ asc ''" loading="lazy" /></a>
  <figcaption><strong>''
      @ fmt_02d (it_id it)
      @ asc ''.</strong> ''
      @ it_title it
      @ asc ''</figcaption>
</figure>''\<close>
  (is "_ = ?mid")
proof -
  have "thumb2 U it = strip_where (py_isspace U) ([10] @ ?mid @ [10])"
    by (simp add: thumb2_def py_strip_def asc_def)
  also have "\<dots> = ?mid"
    by (rule strip_where_mid [OF newline_space newline_space])
      (simp_all add: asc_def py_isspace_def)
  finally show ?thesis .
qed

lemma sublist_in_right: "sublist xs ys \<Longrightarrow> sublist xs (zs @ ys)"
  by (simp add: sublist_append)

lemma sublist_in_left: "sublist xs ys \<Longrightarrow> sublist xs (ys @ zs)"
  by (simp add: sublist_append)

lemma sublist_join: "p \<in> set ps \<Longrightarrow> sublist p (join sep ps)"
  by (induction sep ps rule: join.induct) (auto intro: sublist_in_right)

lemma occ_join:
  "occurrences figure_tag (join [10] ps) = sum_list (map (occurrences figure_tag) ps)"
proof (induction "[10::nat]" ps rule: join.induct)
  case (3 p q ps)
  have "occurrences figure_tag (p @ [10] @ join [10] (q # ps))
      = occurrences figure_tag p + occurrences figure_tag ([10] @ join [10] (q # ps))"
    by (rule occ_before_literal) simp_all
  also have "occurrences figure_tag ([10] @ join [10] (q # ps))
      = occurrences figure_tag [10] + occurrences figure_tag (join [10] (q # ps))"
    by (rule occ_after_literal) simp_all
  finally show ?case using 3 by (simp add: figure_tag_code)
qed simp_all

lemma sum_list_Suc: "sum_list (map (\<lambda>x. Suc (g x)) xs) = length xs + sum_list (map g xs)"
  by (induction xs) simp_all

lemma occ_thumb:
  "occurrences figure_tag (thumb U it)
     = Suc (2 * occurrences figure_tag (it_file it) + occurrences figure_tag (it_title it)
            + occurrences figure_tag (it_prompt it))"
proof -
  define B0 where \<open>B0 = asc ''<figure>
  <a href="''\<close>
  define B1 where \<open>B1 = asc ''"><img src="''\<close>
  define B2 where \<open>B2 = asc ''" loading="lazy" /></a>
  <figcaption><strong>''\<close>
  define B3 where \<open>B3 = asc ''.</strong> ''\<close>
  define B4 where \<open>B4 = asc ''<br/><small>''\<close>
  define B5 where \<open>B5 = asc ''</small></figcaption>
</figure>''\<close>
  have B0: "B0 \<noteq> []" "last B0 \<notin> {60, 102, 105, 103, 117, 114, 101}" "occurrences figure_tag B0 = 1"
    by (simp_all add: B0_def asc_def figure_tag_code)
  have B1: "B1 \<noteq> []" "last B1 \<notin> {60, 102, 105, 103, 117, 114, 101}"
    "hd B1 \<notin> {102, 105, 103, 117, 114, 101, 62}" "occurrences figure_tag B1 = 0"
    by (simp_all add: B1_def asc_def figure_tag_code)
  have B2: "B2 \<noteq> []" "last B2 \<notin> {60, 102, 105, 103, 117, 114, 101}"
    "hd B2 \<notin> {102, 105, 103, 117, 114, 101, 62}" "occurrences figure_tag B2 = 0"
    by (simp_all add: B2_def asc_def figure_tag_code)
  have B3: "B3 \<noteq> []" "last B3 \<notin> {60, 102, 105, 103, 117, 114, 101}"
    "hd B3 \<notin> {102, 105, 103, 117, 114, 101, 62}" "occurrences figure_tag B3 = 0"
    by (simp_all add: B3_def asc_def figure_tag_code)
  have B4: "B4 \<noteq> []" "last B4 \<notin> {60, 102, 105, 103, 117, 114, 101}"
    "hd B4 \<notin> {102, 105, 103, 117, 114, 101, 62}" "occurrences figure_tag B4 = 0"
    by (simp_all add: B4_def asc_def figure_tag_code)
  have B5: "B5 \<noteq> []" "hd B5 \<notin> set (tl figure_tag)" "occurrences figure_tag B5 = 0"
    by (simp_all add: B5_def asc_def figure_tag_code)
  have "thumb U it = B0 @ it_file it @ B1 @ it_file it @ B2 @ fmt_02d (it_id it) @ B3
                       @ it_title it @ B4 @ it_prompt it @ B5"
    unfolding B0_def B1_def B2_def B3_def B4_def B5_def by (rule thumb_eq)
  then show ?thesis
    by (simp only: occ_after_literal [OF B0(1,2)] occ_before_literal [OF B1(1,3)]
        occ_after_literal [OF B1(1,2)] occ_before_literal [OF B2(1,3)]
        occ_after_literal [OF B2(1,2)] occ_before_literal [OF B3(1,3)]
        occ_after_literal [OF B3(1,2)] occ_before_literal [OF B4(1,3)]
        occ_after_literal [OF B4(1,2)] occurrences_append_hd [OF B5(1,2)]
        B0(3) B1(4) B2(4) B3(4) B4(4) B5(3) occ_fmt_02d)
qed

lemma occ_thumb2:
  "occurrences figure_tag (thumb2 U it)
     = Suc (2 * occurrences figure_tag (it_file it) + occurrences figure_tag (it_title it))"
proof -
  define B0 where \<open>B0 = asc ''<figure>
  <a href="''\<close>
  define B1 where \<open>B1 = asc ''"><img src="''\<close>
  define B2 where \<open>B2 = asc ''" loading="lazy" /></a>
  <figcaption><strong>''\<close>
  define B3 where \<open>B3 = asc ''.</strong> ''\<close>
  define B5 where \<open>B5 = asc ''</figcaption>
</figure>''\<close>
  have B0: "B0 \<noteq> []" "last B0 \<notin> {60, 102, 105, 103, 117, 114, 101}" "occurrences figure_tag B0 = 1"
    by (simp_all add: B0_def asc_def figure_tag_code)
  have B1: "B1 \<noteq> []" "last B1 \<notin> {60, 102, 105, 103, 117, 114, 101}"
    "hd B1 \<notin> {102, 105, 103, 117, 114, 101, 62}" "occurrences figure_tag B1 = 0"
    by (simp_all add: B1_def asc_def figure_tag_code)
  have B2: "B2 \<noteq> []" "last B2 \<notin> {60, 102, 105, 103, 117, 114, 101}"
    "hd B2 \<notin> {102, 105, 103, 117, 114, 101, 62}" "occurrences figure_tag B2 = 0"
    by (simp_all add: B2_def asc_def figure_tag_code)
  have B3: "B3 \<noteq> []" "last B3 \<notin> {60, 102, 105, 103, 117, 114, 101}"
    "hd B3 \<notin> {102, 105, 103, 117, 114, 101, 62}" "occurrences figure_tag B3 = 0"
    by (simp_all add: B3_def asc_def figure_tag_code)
  have B5: "B5 \<noteq> []" "hd B5 \<notin> set (tl figure_tag)" "occurrences figure_tag B5 = 0"
    by (simp_all add: B5_def asc_def figure_tag_code)
  have "thumb2 U it = B0 @ it_file it @ B1 @ it_file it @ B2 @ fmt_02d (it_id it) @ B3
                       @ it_title it @ B5"
    unfolding B0_def B1_def B2_def B3_def B5_def by (rule thumb2_eq)
  then show ?thesis
    by (simp only: occ_after_literal [OF B0(1,2)] occ_before_literal [OF B1(1,3)]
        occ_after_literal [OF B1(1,2)] occ_before_literal [OF B2(1,3)]
        occ_after_literal [OF B2(1,2)] occ_before_literal [OF B3(1,3)]
        occ_after_literal [OF B3(1,2)] occurrences_append_hd [OF B5(1,2)]
        B0(3) B1(4) B2(4) B3(4) B5(3) occ_fmt_02d)
qed

lemma gallery_html_frame:
  "\<exists>head mid tail.
     head \<noteq> [] \<and> last head \<notin> {60, 102, 105, 103, 117, 114, 101} \<and> occurrences figure_tag head = 0
   \<and> mid \<noteq> [] \<and> hd mid \<notin> {102, 105, 103, 117, 114, 101, 62}
   \<and> last mid \<notin> {60, 102, 105, 103, 117, 114, 101} \<and> occurrences figure_tag mid = 0
   \<and> tail \<noteq> [] \<and> hd tail \<notin> set (tl figure_tag) \<and> occurrences figure_tag tail = 0
   \<and> (\<forall>U out_dir items.
         gallery_html U out_dir items = head @ out_dir @ mid @ join [10] (map (thumb U) items) @ tail)"
proof -
  define H0 where \<open>H0 = asc ''<!doctype html>
<meta charset="utf-8" />
<title>T Alchemy ''
        @ [8212]
        @ asc '' Logo Exploration</title>
<style>
  :root { color-scheme: dark; }
  body { margin: 24px; font: 14px/1.4 ui-sans-serif, system-ui; background: #0b0f14; color: #e8edf2; }
  h1 { font-size: 20px; margin: 0 0 8px; }
  p { margin: 0 0 18px; color: #b7c2cc; }
  .grid { display: grid; grid-template-columns: repeat(auto-fill, minmax(260px, 1fr)); gap: 16px; }
  figure { margin: 0; padding: 12px; border: 1px solid #1e2a36; border-radius: 14px; background: #0f1620; }
  img { width: 100%; height: auto; border-radius: 10px; display: block; background: #ffffff; }
  figcaption { margin-top: 10px; color: #b7c2cc; }
  small { color: #8ea2b2; }
</style>
<h1>T Alchemy ''
        @ [8212]
        @ asc '' 50 Logo Concepts (PNG)</h1>
<p>Generated concepts for review. Files are in <code>''\<close>
  define H1 where \<open>H1 = asc ''</code>.</p>
<div class="grid">
''\<close>
  define H2 where \<open>H2 = asc ''
</div>
''\<close>
  have H0: "H0 \<noteq> []" "last H0 \<notin> {60, 102, 105, 103, 117, 114, 101}"
    by (simp_all add: H0_def asc_def)
  have H0c: "occurrences figure_tag H0 = 0"
    by (simp add: H0_def asc_def figure_tag_code)
  have H1: "H1 \<noteq> []" "hd H1 \<notin> {102, 105, 103, 117, 114, 101, 62}"
    "last H1 \<notin> {60, 102, 105, 103, 117, 114, 101}" "occurrences figure_tag H1 = 0"
    by (simp_all add: H1_def asc_def figure_tag_code)
  have H2: "H2 \<noteq> []" "hd H2 \<notin> set (tl figure_tag)" "occurrences figure_tag H2 = 0"
    by (simp_all add: H2_def asc_def figure_tag_code)
  have eq: "gallery_html U out_dir items = H0 @ out_dir @ H1 @ join [10] (map (thumb U) items) @ H2"
    for U out_dir items
    unfolding gallery_html_def Let_def H0_def H1_def H2_def by (simp only: append_assoc)
  from H0 H0c H1 H2 eq show ?thesis by blast
qed

lemma gallery_html2_frame:
  "\<exists>head tail.
     head \<noteq> [] \<and> last head \<notin> {60, 102, 105, 103, 117, 114, 101} \<and> occurrences figure_tag head = 0
   \<and> tail \<noteq> [] \<and> hd tail \<notin> set (tl figure_tag) \<and> occurrences figure_tag tail = 0
   \<and> (\<forall>U items. gallery_html2 U items = head @ join [10] (map (thumb2 U) items) @ tail)"
proof -
  define G0 where \<open>G0 = asc ''<!doctype html>
<meta charset="utf-8" />
<title>T Alchemy ''
        @ [8212]
        @ asc '' Logo Exploration (Lockups)</title>
<style>
  :root { color-scheme: dark; }
  body { margin: 24px; font: 14px/1.4 ui-sans-serif, system-ui; background: #0b0f14; color: #e8edf2; }
  h1 { font-size: 20px; margin: 0 0 8px; }
  p { margin: 0 0 18px; color: #b7c2cc; }
  .grid { display: grid; grid-template-columns: repeat(auto-fill, minmax(260px, 1fr)); gap: 16px; }
  figure { margin: 0; padding: 12px; border: 1px solid #1e2a36; border-radius: 14px; background: #0f1620; }
  img { width: 100%; height: auto; border-radius: 10px; display: block; background: #ffffff; }
  figcaption { margin-top: 10px; color: #b7c2cc; }
</style>
<h1>T Alchemy ''
        @ [8212]
        @ asc '' 50 Lockup Concepts (B/W PNG)</h1>
<p>Generated concepts for review.</p>
<div class="grid">
''\<close>
  define G2 where \<open>G2 = asc ''
</div>
''\<close>
  have G0: "G0 \<noteq> []" "last G0 \<notin> {60, 102, 105, 103, 117, 114, 101}"
    by (simp_all add: G0_def asc_def)
  have G0c: "occurrences figure_tag G0 = 0"
    by (simp add: G0_def asc_def figure_tag_code)
  have G2: "G2 \<noteq> []" "hd G2 \<notin> set (tl figure_tag)" "occurrences figure_tag G2 = 0"
    by (simp_all add: G2_def asc_def figure_tag_code)
  have eq: "gallery_html2 U items = G0 @ join [10] (map (thumb2 U) items) @ G2" for U items
    unfolding gallery_html2_def Let_def G0_def G2_def by (simp only: append_assoc)
  from G0 G0c G2 eq show ?thesis by blast
qed

lemma thumb_block: "thumb U it = figure_block True it"
  by (simp add: thumb_eq figure_block_def asc_def)

lemma thumb2_block: "thumb2 U it = figure_block False it"
  by (simp add: thumb2_eq figure_block_def)

lemma thumb_fun: "thumb U = figure_block True"
  by (rule ext) (rule thumb_block)

lemma thumb2_fun: "thumb2 U = figure_block False"
  by (rule ext) (rule thumb2_block)

lemma occ_block: "occurrences figure_tag (figure_block True it) = Suc (field_occurrences True it)"
  using occ_thumb [of undefined it] by (simp add: thumb_block field_occurrences_def)

lemma occ_block2: "occurrences figure_tag (figure_block False it) = Suc (field_occurrences False it)"
  using occ_thumb2 [of undefined it] by (simp add: thumb2_block field_occurrences_def)

lemma occ_blocks:
  "occurrences figure_tag (join [10] (map (figure_block b) items))
     = length items + sum_list (map (field_occurrences b) items)"
proof -
  have "occurrences figure_tag (figure_block b it) = Suc (field_occurrences b it)" for it
    by (cases b) (simp_all add: occ_block occ_block2)
  then show ?thesis
    by (simp add: occ_join comp_def sum_list_Suc)
qed

lemma gallery_html_blocks:
  "\<exists>head mid tail.
     occurrences figure_tag head = 0 \<and> occurrences figure_tag mid = 0 \<and> occurrences figure_tag tail = 0
   \<and> (\<forall>U out_dir items.
         gallery_html U out_dir items
           = head @ out_dir @ mid @ join [10] (map (figure_block True) items) @ tail)"
  using gallery_html_frame unfolding thumb_fun by blast

lemma gallery_html2_blocks:
  "\<exists>head tail.
     occurrences figure_tag head = 0 \<and> occurrences figure_tag tail = 0
   \<and> (\<forall>U items. gallery_html2 U items = head @ join [10] (map (figure_block False) items) @ tail)"
  using gallery_html2_frame unfolding thumb2_fun by blast

lemma occ_gallery_html:
  "occurrences figure_tag (gallery_html U out_dir items)
     = length items + occurrences figure_tag out_dir + sum_list (map (field_occurrences True) items)"
proof -
  from gallery_html_frame obtain head mid tail where
    h: "head \<noteq> []" "last head \<notin> {60, 102, 105, 103, 117, 114, 101}" "occurrences figure_tag head = 0"
    and m: "mid \<noteq> []" "hd mid \<notin> {102, 105, 103, 117, 114, 101, 62}"
      "last mid \<notin> {60, 102, 105, 103, 117, 114, 101}" "occurrences figure_tag mid = 0"
    and t: "tail \<noteq> []" "hd tail \<notin> set (tl figure_tag)" "occurrences figure_tag tail = 0"
    and eq: "\<And>U out_dir items.
        gallery_html U out_dir items = head @ out_dir @ mid @ join [10] (map (thumb U) items) @ tail"
    by blast
  let ?J = "join [10] (map (figure_block True) items)"
  have "occurrences figure_tag (gallery_html U out_dir items)
      = occurrences figure_tag (head @ out_dir @ mid @ ?J @ tail)"
    by (simp only: eq thumb_fun)
  also have "\<dots> = occurrences figure_tag head + occurrences figure_tag (out_dir @ mid @ ?J @ tail)"
    by (rule occ_after_literal [OF h(1,2)])
  also have "occurrences figure_tag (out_dir @ mid @ ?J @ tail)
      = occurrences figure_tag out_dir + occurrences figure_tag (mid @ ?J @ tail)"
    by (rule occ_before_literal [OF m(1,2)])
  also have "occurrences figure_tag (mid @ ?J @ tail)
      = occurrences figure_tag mid + occurrences figure_tag (?J @ tail)"
    by (rule occ_after_literal [OF m(1,3)])
  also have "occurrences figure_tag (?J @ tail) = occurrences figure_tag ?J + occurrences figure_tag tail"
    by (rule occurrences_append_hd [OF t(1,2)])
  finally show ?thesis
    by (simp add: h(3) m(4) t(3) occ_blocks)
qed

lemma occ_gallery_html2:
  "occurrences figure_tag (gallery_html2 U items)
     = length items + sum_list (map (field_occurrences False) items)"
proof -
  from gallery_html2_frame obtain head tail where
    h: "head \<noteq> []" "last head \<notin> {60, 102, 105, 103, 117, 114, 101}" "occurrences figure_tag head = 0"
    and t: "tail \<noteq> []" "hd tail \<notin> set (tl figure_tag)" "occurrences figure_tag tail = 0"
    and eq: "\<And>U items. gallery_html2 U items = head @ join [10] (map (thumb2 U) items) @ tail"
    by blast
  let ?J = "join [10] (map (figure_block False) items)"
  have "occurrences figure_tag (gallery_html2 U items) = occurrences figure_tag (head @ ?J @ tail)"
    by (simp only: eq thumb2_fun)
  also have "\<dots> = occurrences figure_tag head + occurrences figure_tag (?J @ tail)"
    by (rule occ_after_literal [OF h(1,2)])
  also have "occurrences figure_tag (?J @ tail) = occurrences figure_tag ?J + occurrences figure_tag tail"
    by (rule occurrences_append_hd [OF t(1,2)])
  finally show ?thesis
    by (simp add: h(3) t(3) occ_blocks)
qed

lemma gallery_html_dir:
  "gallery_html U d items = gallery_html U d' items \<Longrightarrow> length d = length d' \<Longrightarrow> d = d'"
proof -
  assume a: "gallery_html U d items = gallery_html U d' items" and l: "length d = length d'"
  from gallery_html_blocks obtain head mid tail where
    eq: "\<And>U out_dir items.
        gallery_html U out_dir items
          = head @ out_dir @ mid @ join [10] (map (figure_block True) items) @ tail"
    by blast
  from a have "d @ mid @ join [10] (map (figure_block True) items) @ tail
             = d' @ mid @ join [10] (map (figure_block True) items) @ tail"
    by (simp only: eq same_append_eq)
  with l show ?thesis by simp
qed

lemma block_in_join: "it \<in> set items \<Longrightarrow> sublist (f it) (join sep (map f items))"
  by (rule sublist_join) simp

lemma title_in_block: "sublist (it_title it) (figure_block b it)"
  unfolding figure_block_def
  by (intro sublist_in_right sublist_in_left sublist_order.order_refl)

lemma prompt_in_block: "sublist (it_prompt it) (figure_block True it)"
  unfolding figure_block_def if_True
  by (intro sublist_in_right sublist_in_left sublist_order.order_refl)

lemma block_in_gallery_html:
  assumes "it \<in> set items"
  shows "sublist (figure_block True it) (gallery_html U out_dir items)"
proof -
  from gallery_html_blocks obtain head mid tail where
    eq: "\<And>U out_dir items.
        gallery_html U out_dir items
          = head @ out_dir @ mid @ join [10] (map (figure_block True) items) @ tail"
    by blast
  from assms have "sublist (figure_block True it) (join [10] (map (figure_block True) items))"
    by (rule block_in_join)
  then show ?thesis
    unfolding eq by (intro sublist_in_right sublist_in_left)
qed

lemma block_in_gallery_html2:
  assumes "it \<in> set items"
  shows "sublist (figure_block False it) (gallery_html2 U items)"
proof -
  from gallery_html2_blocks obtain head tail where
    eq: "\<And>U items. gallery_html2 U items = head @ join [10] (map (figure_block False) items) @ tail"
    by blast
  from assms have "sublist (figure_block False it) (join [10] (map (figure_block False) items))"
    by (rule block_in_join)
  then show ?thesis
    unfolding eq by (intro sublist_in_right sublist_in_left)
qed

text \<open>
  C7, as the code has it: the page of \<open>generate.py\<close> is a fixed head, the output
  directory, a fixed middle, the figure blocks of the manifest entries in manifest order
  joined by newlines, and a fixed tail; the page of \<open>generate2.py\<close> is a fixed head, the
  figure blocks without the prompt, and a fixed tail. No fixed part holds a figure tag, so
  the number of figure tags of a page is the number of entries plus the figure tags inside
  the interpolated file names, titles and prompts, and inside the output directory in
  \<open>generate.py\<close>.
\<close>

theorem gallery_figures:
  "(\<exists>head mid tail.
      occurrences figure_tag head = 0 \<and> occurrences figure_tag mid = 0 \<and> occurrences figure_tag tail = 0
    \<and> (\<forall>U out_dir items.
          gallery_html U out_dir items
            = head @ out_dir @ mid @ join [10] (map (figure_block True) items) @ tail))
   \<and> (\<exists>head tail.
        occurrences figure_tag head = 0 \<and> occurrences figure_tag tail = 0
      \<and> (\<forall>U items. gallery_html2 U items = head @ join [10] (map (figure_block False) items) @ tail))
   \<and> occurrences figure_tag (gallery_html U out_dir items)
       = length items + occurrences figure_tag out_dir + sum_list (map (field_occurrences True) items)
   \<and> occurrences figure_tag (gallery_html2 U items)
       = length items + sum_list (map (field_occurrences False) items)"
  using gallery_html_blocks gallery_html2_blocks occ_gallery_html [of U out_dir items]
    occ_gallery_html2 [of U items]
  by (intro conjI)

lemma sample_fields: "map (field_occurrences b) sample_items = [0, 0]"
  by (cases b) (simp_all add: sample_items_def field_occurrences_def asc_def figure_tag_code)

lemma figure_fields: "map (field_occurrences b) figure_items = [1]"
  by (cases b) (simp_all add: figure_items_def field_occurrences_def asc_def figure_tag_code)

lemma occ_run1: "occurrences figure_tag (asc ''out/run1'') = 0"
  by (simp add: asc_def figure_tag_code)

theorem gallery_figures_witness:
  "occurrences figure_tag (gallery_html unicode_sample (asc ''out/run1'') sample_items) = 2
   \<and> occurrences figure_tag (gallery_html2 unicode_sample sample_items) = 2"
  using gallery_figures [of unicode_sample "asc ''out/run1''" sample_items]
  by (simp add: sample_fields occ_run1) (simp add: sample_items_def)

text \<open>
  C7 as stated fails in two ways. A manifest of one entry whose title is \<open><figure>\<close>
  gives a page with two figure tags, in either script; and the page of \<open>generate.py\<close>
  is not determined by the manifest: the same manifest in two output directories gives
  two pages.
\<close>

theorem gallery_figures_counterexample:
  "length figure_items = 1
   \<and> occurrences figure_tag (gallery_html2 unicode_sample figure_items) = 2
   \<and> occurrences figure_tag (gallery_html unicode_sample (asc ''out/run1'') figure_items) = 2
   \<and> gallery_html unicode_sample (asc ''out/run1'') sample_items
       \<noteq> gallery_html unicode_sample (asc ''out/run2'') sample_items"
proof -
  have "asc ''out/run1'' \<noteq> asc ''out/run2''" "length (asc ''out/run1'') = length (asc ''out/run2'')"
    by (simp_all add: asc_def)
  with gallery_html_dir [of unicode_sample "asc ''out/run1''" sample_items "asc ''out/run2''"]
  have "gallery_html unicode_sample (asc ''out/run1'') sample_items
       \<noteq> gallery_html unicode_sample (asc ''out/run2'') sample_items"
    by blast
  then show ?thesis
    by (simp add: occ_gallery_html occ_gallery_html2 figure_fields occ_run1) (simp add: figure_items_def)
qed

text \<open>
  C10: the title of every manifest entry and, in \<open>generate.py\<close>, its prompt are
  contiguous parts of the page, code point for code point, whatever they contain, and so
  is the whole figure block around them.
\<close>

theorem gallery_verbatim:
  assumes "it \<in> set items"
  shows "sublist (it_title it) (gallery_html U out_dir items)
       \<and> sublist (it_prompt it) (gallery_html U out_dir items)
       \<and> sublist (it_title it) (gallery_html2 U items)
       \<and> sublist (figure_block True it) (gallery_html U out_dir items)
       \<and> sublist (figure_block False it) (gallery_html2 U items)"
proof -
  note b = block_in_gallery_html [OF assms, of U out_dir] and b2 = block_in_gallery_html2 [OF assms, of U]
  have "sublist (it_title it) (gallery_html U out_dir items)"
    using title_in_block b by (rule sublist_order.order_trans)
  moreover have "sublist (it_prompt it) (gallery_html U out_dir items)"
    using prompt_in_block b by (rule sublist_order.order_trans)
  moreover have "sublist (it_title it) (gallery_html2 U items)"
    using title_in_block b2 by (rule sublist_order.order_trans)
  ultimately show ?thesis using b b2 by simp
qed

theorem gallery_verbatim_witness:
  "sublist (asc ''Alchemy <&> Flask'') (gallery_html unicode_sample (asc ''out/run1'') sample_items)
   \<and> sublist (asc ''a flask'') (gallery_html unicode_sample (asc ''out/run1'') sample_items)
   \<and> sublist (asc ''Alchemy <&> Flask'') (gallery_html2 unicode_sample sample_items)"
  using gallery_verbatim [of "sample_items ! 1" sample_items unicode_sample "asc ''out/run1''"]
  by (simp add: sample_items_def)

end
